theory Spec2Isabelle
  imports Main "HOL-Library.Word"
begin

section \<open>LED night light: data model\<close>

text \<open>
  The sketch \<^verbatim>\<open>led_night_light.ino\<close> runs on an Arduino Nano (AVR): \<^verbatim>\<open>byte\<close> is an
  unsigned 8-bit value, \<^verbatim>\<open>unsigned long\<close> an unsigned 32-bit value, and \<^verbatim>\<open>int\<close> a signed
  16-bit value. Bytes and the millisecond clock are words, so \<open>+\<close> and \<open>-\<close> wrap and the
  comparisons are unsigned. The \<^verbatim>\<open>int\<close> values of the sketch (the colour index, the
  temporaries of the graduation) are mathematical integers: every one of them is computed
  from bytes by adding or subtracting 1, so none leaves the range of 16 bits.
\<close>

type_synonym byte = "8 word"
type_synonym ulong = "32 word"

record RGB =
  r :: byte
  g :: byte
  b :: byte

text \<open>The calls on the strip driver, in the order the sketch makes them.\<close>

datatype strip_op = SetPixelColor nat byte byte byte | SetBrightness byte | Show

text \<open>
  The three logical actions. The sketch performs them by calling \<^verbatim>\<open>cycleColor()\<close>,
  \<^verbatim>\<open>cycleMode()\<close> and \<^verbatim>\<open>incBrightness()\<close>, each of which prints one line under
  \<^verbatim>\<open>SERIAL_DEBUG\<close>; the field \<open>actionLog\<close> of the state records these calls in order.
\<close>

datatype action = CycleColor | CycleMode | IncreaseBrightness

record state =
  btnState :: "bool list"
  lastBtnState :: "bool list"
  btnPressHandled :: "bool list"
  lastBtnDebounceTime :: "ulong list"
  btnDownStart :: "ulong list"
  lastLEDUpdate :: ulong
  lastPhaseChange :: ulong
  currentMode :: byte
  inputBrightnessLevel :: byte
  targetBrightness :: byte
  actualBrightness :: byte
  currentColorIndex :: int
  targetColor :: "RGB list"
  actualColor :: "RGB list"
  currentRainPhase :: byte
  eeprom :: "nat \<Rightarrow> byte"
  stripLog :: "strip_op list"
  actionLog :: "action list"

text \<open>
  What one pass of \<^verbatim>\<open>loop()\<close> reads from its environment: the two pins, and the value of
  \<^verbatim>\<open>millis()\<close> at each place the sketch calls it (in \<^verbatim>\<open>checkButtons\<close>, in
  \<^verbatim>\<open>btnStateChange\<close> for either button, in \<^verbatim>\<open>updatePhase\<close> and in \<^verbatim>\<open>updateLEDs\<close>).
\<close>

record tick =
  pinButton1 :: bool
  pinButton2 :: bool
  millisCheck :: ulong
  millisChange1 :: ulong
  millisChange2 :: ulong
  millisPhase :: ulong
  millisLEDs :: ulong

subsection \<open>Configuration\<close>

definition DEBOUNCE_DELAY :: ulong where "DEBOUNCE_DELAY = 50"
definition NUM_LEDS :: nat where "NUM_LEDS = 10"
definition LED_COLOR_GRADUATION :: int where "LED_COLOR_GRADUATION = 1"
definition PHASE_DURATION :: ulong where "PHASE_DURATION = 1000"
definition MODECOUNT :: byte where "MODECOUNT = 3"
definition MODE_UNIFIED :: byte where "MODE_UNIFIED = 0"
definition MODE_COMPLEMENTARY :: byte where "MODE_COMPLEMENTARY = 1"
definition MODE_RAIN :: byte where "MODE_RAIN = 2"
definition NUM_COLORS :: byte where "NUM_COLORS = 8"
definition COMPLEMENTARY_FRONT :: bool where "COMPLEMENTARY_FRONT = False"
definition COMPLEMENTARY_REAR :: bool where "COMPLEMENTARY_REAR = True"

text \<open>
  \<^verbatim>\<open>(currentMillis - lastLEDUpdate) > LED_UPDATE_DELAY\<close> compares an unsigned 32-bit
  difference with the constant 8.3333. The difference is a whole number, so the test holds
  exactly when it is at least 9 (the conversion to floating point is monotone and exact
  on small values).
\<close>

definition exceedsUpdateDelay :: "ulong \<Rightarrow> bool" where
  "exceedsUpdateDelay d = (8 < unat d)"

definition brightnessValues :: "byte list" where
  "brightnessValues = [50, 90, 130, 180, 220]"

definition colors :: "RGB list" where
  "colors =
    [\<lparr>r = 255, g = 255, b = 255\<rparr>,
     \<lparr>r = 255, g = 127, b = 0\<rparr>,
     \<lparr>r = 255, g = 225, b = 0\<rparr>,
     \<lparr>r = 127, g = 255, b = 0\<rparr>,
     \<lparr>r = 0, g = 255, b = 255\<rparr>,
     \<lparr>r = 127, g = 0, b = 255\<rparr>,
     \<lparr>r = 230, g = 30, b = 110\<rparr>,
     \<lparr>r = 255, g = 60, b = 40\<rparr>]"

definition complementary_colors :: "RGB list" where
  "complementary_colors =
    [colors ! 4, colors ! 2, colors ! 7, colors ! 2,
     colors ! 0, colors ! 6, colors ! 5, colors ! 1]"

definition complementary_LED_map :: "bool list" where
  "complementary_LED_map =
    [COMPLEMENTARY_FRONT, COMPLEMENTARY_FRONT, COMPLEMENTARY_FRONT,
     COMPLEMENTARY_REAR, COMPLEMENTARY_REAR, COMPLEMENTARY_REAR,
     COMPLEMENTARY_REAR, COMPLEMENTARY_REAR, COMPLEMENTARY_REAR,
     COMPLEMENTARY_FRONT]"

definition rain_phase_LED_map :: "byte list" where
  "rain_phase_LED_map = [0, 2, 1, 1, 2, 0, 0, 2, 1, 0]"

text \<open>
  Reading a table beyond its end is undefined behaviour in the sketch. The reads whose
  index is not bounded by the code itself return \<open>None\<close> there.
\<close>

definition brightnessAt :: "byte \<Rightarrow> byte option" where
  "brightnessAt i = (if unat i < length brightnessValues then Some (brightnessValues ! unat i) else None)"

definition colorsAt :: "int \<Rightarrow> RGB option" where
  "colorsAt i = (if 0 \<le> i \<and> i < int (length colors) then Some (colors ! nat i) else None)"

definition complementaryAt :: "int \<Rightarrow> RGB option" where
  "complementaryAt i =
     (if 0 \<le> i \<and> i < int (length complementary_colors) then Some (complementary_colors ! nat i) else None)"

text \<open>A \<^verbatim>\<open>for\<close> loop over positions whose body may fail: it stops at the first failure.\<close>

fun forEach :: "(nat \<Rightarrow> 'a \<Rightarrow> 'a option) \<Rightarrow> nat list \<Rightarrow> 'a \<Rightarrow> 'a option" where
  "forEach f [] a = Some a"
| "forEach f (i # is) a = (case f i a of None \<Rightarrow> None | Some a' \<Rightarrow> forEach f is a')"

text \<open>Arduino's macro \<^verbatim>\<open>constrain(amt, low, high)\<close>.\<close>

definition constrain :: "int \<Rightarrow> int \<Rightarrow> int \<Rightarrow> int" where
  "constrain amt low high = (if amt < low then low else if amt > high then high else amt)"

section \<open>Persistence\<close>

definition saveState :: "state \<Rightarrow> state" where
  "saveState s =
     (let s1 = s\<lparr>eeprom := (eeprom s)(0 := currentMode s)\<rparr>;
          s2 = s1\<lparr>eeprom := (eeprom s1)(1 := inputBrightnessLevel s1)\<rparr>
      in s2\<lparr>eeprom := (eeprom s2)(2 := word_of_int (currentColorIndex s2))\<rparr>)"

definition loadState :: "state \<Rightarrow> state option" where
  "loadState s =
     (let s1 = s\<lparr>currentMode := (if eeprom s 0 = 255 then currentMode s else eeprom s 0)\<rparr>;
          s2 = s1\<lparr>inputBrightnessLevel :=
                    (if eeprom s1 1 = 255 then inputBrightnessLevel s1 else eeprom s1 1)\<rparr>
      in case brightnessAt (inputBrightnessLevel s2) of
           None \<Rightarrow> None
         | Some v \<Rightarrow>
             let s3 = s2\<lparr>targetBrightness := v, actualBrightness := 0\<rparr>;
                 s4 = s3\<lparr>currentColorIndex :=
                           (if eeprom s3 2 = 255 then currentColorIndex s3 else uint (eeprom s3 2))\<rparr>
             in Some (s4\<lparr>actualColor :=
                           fold (\<lambda>i a. a[i := \<lparr>r = 0, g = 0, b = 0\<rparr>]) [0..<NUM_LEDS] (actualColor s4)\<rparr>))"

section \<open>The three actions\<close>

text \<open>
  In \<^verbatim>\<open>incBrightness\<close> the index of \<^verbatim>\<open>brightnessValues\<close> has just been reset to 0 when
  it was above 4, so the read is always inside the table.
\<close>

definition incBrightness :: "state \<Rightarrow> state" where
  "incBrightness s =
     (let newBrightness = inputBrightnessLevel s + 1;
          newBrightness = (if newBrightness > 4 then 0 else newBrightness);
          s1 = s\<lparr>inputBrightnessLevel := newBrightness\<rparr>;
          s2 = s1\<lparr>targetBrightness := brightnessValues ! unat (inputBrightnessLevel s1)\<rparr>
      in saveState (s2\<lparr>actionLog := actionLog s2 @ [IncreaseBrightness]\<rparr>))"

definition cycleMode :: "state \<Rightarrow> state" where
  "cycleMode s =
     (let newMode = currentMode s + 1;
          newMode = (if newMode \<ge> MODECOUNT then 0 else newMode);
          s1 = s\<lparr>currentMode := newMode\<rparr>
      in saveState (s1\<lparr>actionLog := actionLog s1 @ [CycleMode]\<rparr>))"

definition cycleColor :: "state \<Rightarrow> state" where
  "cycleColor s =
     (let newColorIndex = (word_of_int (currentColorIndex s + 1) :: byte);
          newColorIndex = (if newColorIndex \<ge> NUM_COLORS then 0 else newColorIndex);
          s1 = s\<lparr>currentColorIndex := uint newColorIndex\<rparr>
      in saveState (s1\<lparr>actionLog := actionLog s1 @ [CycleColor]\<rparr>))"

section \<open>Buttons\<close>

definition btnStateChange :: "nat \<Rightarrow> bool \<Rightarrow> ulong \<Rightarrow> ulong \<Rightarrow> state \<Rightarrow> state" where
  "btnStateChange btnNumber newState duration currentMillis s =
     (let s1 = s\<lparr>btnState := (btnState s)[btnNumber := newState]\<rparr> in
      if newState then
        s1\<lparr>btnDownStart := (btnDownStart s1)[btnNumber := currentMillis],
           btnPressHandled := (btnPressHandled s1)[btnNumber := False]\<rparr>
      else
        let s2 = s1\<lparr>btnDownStart := (btnDownStart s1)[btnNumber := 0]\<rparr> in
        if btnNumber = 0 \<and> btnState s2 ! 1 = False \<and> btnPressHandled s2 ! 0 = False then
          cycleColor s2
        else if btnNumber = 1 \<and> btnState s2 ! 0 = False \<and> btnPressHandled s2 ! 1 = False then
          cycleMode s2
        else if btnNumber = 1 \<and> btnState s2 ! 0 = True \<and> btnPressHandled s2 ! 1 = False then
          incBrightness (s2\<lparr>btnPressHandled := (btnPressHandled s2)[0 := True]\<rparr>)
        else s2)"

definition digitalRead :: "tick \<Rightarrow> nat \<Rightarrow> bool" where
  "digitalRead inp i = (if i = 0 then pinButton1 inp else pinButton2 inp)"

definition millisChange :: "tick \<Rightarrow> nat \<Rightarrow> ulong" where
  "millisChange inp i = (if i = 0 then millisChange1 inp else millisChange2 inp)"

text \<open>The body of the loop of \<^verbatim>\<open>checkButtons\<close> for button \<open>i\<close>.\<close>

definition checkButton :: "tick \<Rightarrow> nat \<Rightarrow> state \<Rightarrow> state" where
  "checkButton inp i s =
     (let currentMillis = millisCheck inp;
          btnReading = digitalRead inp i;
          s1 = (if btnReading \<noteq> lastBtnState s ! i
                then s\<lparr>lastBtnDebounceTime := (lastBtnDebounceTime s)[i := currentMillis]\<rparr>
                else s);
          s2 = (if currentMillis - lastBtnDebounceTime s1 ! i > DEBOUNCE_DELAY
                then (if btnReading \<noteq> btnState s1 ! i
                      then btnStateChange i btnReading
                             (if btnReading then 0 else currentMillis - btnDownStart s1 ! i)
                             (millisChange inp i) s1
                      else s1)
                else s1)
      in s2\<lparr>lastBtnState := (lastBtnState s2)[i := btnReading]\<rparr>)"

definition checkButtons :: "tick \<Rightarrow> state \<Rightarrow> state" where
  "checkButtons inp s = fold (checkButton inp) [0..<2] s"

section \<open>Phase and LEDs\<close>

definition updatePhase :: "ulong \<Rightarrow> state \<Rightarrow> state" where
  "updatePhase currentMillis s =
     (if currentMode s = MODE_RAIN then
        (if currentMillis - lastPhaseChange s > PHASE_DURATION then
           let s1 = s\<lparr>lastPhaseChange := currentMillis\<rparr>;
               s2 = s1\<lparr>currentRainPhase := currentRainPhase s1 + 1\<rparr>
           in (if currentRainPhase s2 > 2 then s2\<lparr>currentRainPhase := 0\<rparr> else s2)
         else s)
      else s)"

definition halfwayBetweenColors :: "RGB \<Rightarrow> RGB \<Rightarrow> RGB" where
  "halfwayBetweenColors A B =
     (let result = A;
          result = (if uint (r A) < uint (r B)
                    then result\<lparr>r := word_of_int (uint (r A) + (uint (r B) - uint (r A)) div 2)\<rparr>
                    else if uint (r A) > uint (r B)
                    then result\<lparr>r := word_of_int (uint (r B) + (uint (r A) - uint (r B)) div 2)\<rparr>
                    else result);
          result = (if uint (g A) < uint (g B)
                    then result\<lparr>g := word_of_int (uint (g A) + (uint (g B) - uint (g A)) div 2)\<rparr>
                    else if uint (g A) > uint (g B)
                    then result\<lparr>g := word_of_int (uint (g B) + (uint (g A) - uint (g B)) div 2)\<rparr>
                    else result);
          result = (if uint (b A) < uint (b B)
                    then result\<lparr>b := word_of_int (uint (b A) + (uint (b B) - uint (b A)) div 2)\<rparr>
                    else if uint (b A) > uint (b B)
                    then result\<lparr>b := word_of_int (uint (b B) + (uint (b A) - uint (b B)) div 2)\<rparr>
                    else result)
      in result)"

text \<open>The bodies of the three loops of the \<^verbatim>\<open>switch\<close> of \<^verbatim>\<open>updateLEDs\<close>, on \<^verbatim>\<open>targetColor\<close>.\<close>

definition unifiedLED :: "int \<Rightarrow> nat \<Rightarrow> RGB list \<Rightarrow> RGB list option" where
  "unifiedLED idx i t = (case colorsAt idx of None \<Rightarrow> None | Some c \<Rightarrow> Some (t[i := c]))"

definition complementaryLED :: "int \<Rightarrow> nat \<Rightarrow> RGB list \<Rightarrow> RGB list option" where
  "complementaryLED idx i t =
     (if complementary_LED_map ! i = COMPLEMENTARY_FRONT
      then (case colorsAt idx of None \<Rightarrow> None | Some c \<Rightarrow> Some (t[i := c]))
      else (case complementaryAt idx of None \<Rightarrow> None | Some c \<Rightarrow> Some (t[i := c])))"

definition rainLED :: "byte \<Rightarrow> byte \<Rightarrow> byte \<Rightarrow> int \<Rightarrow> nat \<Rightarrow> RGB list \<Rightarrow> RGB list option" where
  "rainLED primaryPhase secondaryPhase tertiaryPhase idx i t =
     (if rain_phase_LED_map ! i = primaryPhase
      then (case colorsAt idx of None \<Rightarrow> None | Some c \<Rightarrow> Some (t[i := c]))
      else if rain_phase_LED_map ! i = secondaryPhase
      then (case colorsAt idx of None \<Rightarrow> None
            | Some c \<Rightarrow> (case complementaryAt idx of None \<Rightarrow> None
                         | Some cc \<Rightarrow> Some (t[i := halfwayBetweenColors c cc])))
      else if rain_phase_LED_map ! i = tertiaryPhase
      then (case complementaryAt idx of None \<Rightarrow> None | Some c \<Rightarrow> Some (t[i := c]))
      else Some t)"

text \<open>
  The \<^verbatim>\<open>switch (currentMode)\<close> of \<^verbatim>\<open>updateLEDs\<close>: the contents of \<^verbatim>\<open>targetColor\<close>
  after it. The switch has no default case, so any other mode leaves the array as it is.
\<close>

definition setTargets :: "state \<Rightarrow> RGB list option" where
  "setTargets s =
     (if currentMode s = MODE_UNIFIED then
        forEach (unifiedLED (currentColorIndex s)) [0..<NUM_LEDS] (targetColor s)
      else if currentMode s = MODE_COMPLEMENTARY then
        forEach (complementaryLED (currentColorIndex s)) [0..<NUM_LEDS] (targetColor s)
      else if currentMode s = MODE_RAIN then
        (let primaryPhase = currentRainPhase s;
             secondaryPhase = currentRainPhase s + 1;
             tertiaryPhase = currentRainPhase s + 2;
             secondaryPhase = (if secondaryPhase > 2 then secondaryPhase - 3 else secondaryPhase);
             tertiaryPhase = (if tertiaryPhase > 2 then tertiaryPhase - 3 else tertiaryPhase)
         in forEach (rainLED primaryPhase secondaryPhase tertiaryPhase (currentColorIndex s))
              [0..<NUM_LEDS] (targetColor s))
      else Some (targetColor s))"

text \<open>One channel of the linear graduation: the new value, still an \<^verbatim>\<open>int\<close>.\<close>

definition graduateChannel :: "byte \<Rightarrow> byte \<Rightarrow> int" where
  "graduateChannel actual target =
     (let new = uint actual in
      if new < uint target then constrain (new + LED_COLOR_GRADUATION) 0 (uint target)
      else if new > uint target then constrain (new - LED_COLOR_GRADUATION) (uint target) 255
      else new)"

text \<open>
  The body of the graduation loop for position \<open>i\<close>. The first component is the local
  variable \<^verbatim>\<open>somethingChanged\<close>.
\<close>

definition graduateLED :: "nat \<Rightarrow> bool \<times> state \<Rightarrow> bool \<times> state" where
  "graduateLED i cs =
     (let somethingChanged = fst cs; s = snd cs in
      if r (actualColor s ! i) \<noteq> r (targetColor s ! i) \<or>
         g (actualColor s ! i) \<noteq> g (targetColor s ! i) \<or>
         b (actualColor s ! i) \<noteq> b (targetColor s ! i)
      then
        let newR = graduateChannel (r (actualColor s ! i)) (r (targetColor s ! i));
            newG = graduateChannel (g (actualColor s ! i)) (g (targetColor s ! i));
            newB = graduateChannel (b (actualColor s ! i)) (b (targetColor s ! i));
            s1 = s\<lparr>actualColor := (actualColor s)[i :=
                      \<lparr>r = word_of_int newR, g = word_of_int newG, b = word_of_int newB\<rparr>]\<rparr>
        in (True, s1\<lparr>stripLog := stripLog s1 @
                       [SetPixelColor i (r (actualColor s1 ! i)) (g (actualColor s1 ! i))
                          (b (actualColor s1 ! i))]\<rparr>)
      else (somethingChanged, s))"

definition graduateBrightness :: "bool \<times> state \<Rightarrow> bool \<times> state" where
  "graduateBrightness cs =
     (let somethingChanged = fst cs; s = snd cs in
      if targetBrightness s \<noteq> actualBrightness s then
        let newBrightness = uint (actualBrightness s);
            newBrightness =
              (if newBrightness < uint (targetBrightness s)
               then constrain (newBrightness + LED_COLOR_GRADUATION) 0 (uint (targetBrightness s))
               else constrain (newBrightness - LED_COLOR_GRADUATION) (uint (targetBrightness s)) 255);
            s1 = s\<lparr>actualBrightness := word_of_int newBrightness\<rparr>
        in (True, s1\<lparr>stripLog := stripLog s1 @ [SetBrightness (actualBrightness s1)]\<rparr>)
      else (somethingChanged, s))"

definition updateLEDs :: "ulong \<Rightarrow> state \<Rightarrow> state option" where
  "updateLEDs currentMillis s =
     (if exceedsUpdateDelay (currentMillis - lastLEDUpdate s) then
        (case setTargets s of
           None \<Rightarrow> None
         | Some t \<Rightarrow>
             let s1 = s\<lparr>targetColor := t\<rparr>;
                 cs = fold graduateLED [0..<NUM_LEDS] (False, s1);
                 cs = graduateBrightness cs;
                 s2 = (if fst cs then (snd cs)\<lparr>stripLog := stripLog (snd cs) @ [Show]\<rparr> else snd cs)
             in Some (s2\<lparr>lastLEDUpdate := currentMillis\<rparr>))
      else Some s)"

section \<open>Setup and loop\<close>

text \<open>
  The globals as their initialisers leave them (arrays without an initialiser are zeroed),
  over an EEPROM with the contents \<open>e\<close>; the strip has not been called yet.
\<close>

definition initState :: "(nat \<Rightarrow> byte) \<Rightarrow> state" where
  "initState e =
     \<lparr>btnState = [False, False],
      lastBtnState = [False, False],
      btnPressHandled = [False, False],
      lastBtnDebounceTime = [0, 0],
      btnDownStart = [0, 0],
      lastLEDUpdate = 0,
      lastPhaseChange = 0,
      currentMode = MODE_UNIFIED,
      inputBrightnessLevel = 3,
      targetBrightness = brightnessValues ! 3,
      actualBrightness = brightnessValues ! 3,
      currentColorIndex = 0,
      targetColor = replicate NUM_LEDS \<lparr>r = 0, g = 0, b = 0\<rparr>,
      actualColor = replicate NUM_LEDS \<lparr>r = 0, g = 0, b = 0\<rparr>,
      currentRainPhase = 0,
      eeprom = e,
      stripLog = [],
      actionLog = []\<rparr>"

definition setupSketch :: "(nat \<Rightarrow> byte) \<Rightarrow> state option" where
  "setupSketch e = loadState (initState e)"

definition loop :: "tick \<Rightarrow> state \<Rightarrow> state option" where
  "loop inp s = updateLEDs (millisLEDs inp) (updatePhase (millisPhase inp) (checkButtons inp s))"

fun runLoop :: "tick list \<Rightarrow> state \<Rightarrow> state option" where
  "runLoop [] s = Some s"
| "runLoop (inp # inps) s = (case loop inp s of None \<Rightarrow> None | Some s' \<Rightarrow> runLoop inps s')"

section \<open>Notions used by the properties\<close>

text \<open>An EEPROM that was never written: every cell holds 255.\<close>

definition blankEeprom :: "nat \<Rightarrow> byte" where
  "blankEeprom a = 255"

text \<open>The persisted selection is in range: a mode 0 to 2, a level 0 to 4, a colour 0 to 7.\<close>

definition selectionInRange :: "state \<Rightarrow> bool" where
  "selectionInRange s =
     (unat (currentMode s) \<le> 2 \<and> unat (inputBrightnessLevel s) \<le> 4 \<and>
      0 \<le> currentColorIndex s \<and> currentColorIndex s \<le> 7)"

text \<open>The arrays of the buttons have the length 2 the sketch declares them with.\<close>

definition buttonArraysOK :: "state \<Rightarrow> bool" where
  "buttonArraysOK s =
     (length (btnState s) = 2 \<and> length (lastBtnState s) = 2 \<and> length (btnPressHandled s) = 2 \<and>
      length (lastBtnDebounceTime s) = 2 \<and> length (btnDownStart s) = 2)"

text \<open>
  The bytes at the addresses 0, 1 and 2 of an EEPROM are each the sentinel 255 or a value
  in the range of the field they are loaded into.
\<close>

definition storedSelectionOK :: "(nat \<Rightarrow> byte) \<Rightarrow> bool" where
  "storedSelectionOK e =
     ((e 0 = 255 \<or> unat (e 0) \<le> 2) \<and> (e 1 = 255 \<or> unat (e 1) \<le> 4) \<and>
      (e 2 = 255 \<or> unat (e 2) \<le> 7))"

text \<open>An EEPROM whose mode byte is 200, the other cells never written.\<close>

definition corruptEeprom :: "nat \<Rightarrow> byte" where
  "corruptEeprom a = (if a = 0 then 200 else 255)"

text \<open>Successive calls of \<^verbatim>\<open>checkButtons\<close>, one per tick.\<close>

fun runButtons :: "tick list \<Rightarrow> state \<Rightarrow> state" where
  "runButtons [] s = s"
| "runButtons (inp # inps) s = runButtons inps (checkButtons inp s)"

text \<open>
  A stretch of ticks during which the pins read \<open>p1\<close> and \<open>p2\<close>, and which lasts beyond the
  debounce delay: some tick after the first comes more than \<^verbatim>\<open>DEBOUNCE_DELAY\<close> after it
  (on the wrapping clock).
\<close>

definition stablePhase :: "bool \<Rightarrow> bool \<Rightarrow> tick list \<Rightarrow> bool" where
  "stablePhase p1 p2 ts =
     (case ts of
        [] \<Rightarrow> False
      | f # rest \<Rightarrow>
          (\<forall>inp\<in>set ts. pinButton1 inp = p1 \<and> pinButton2 inp = p2) \<and>
          (\<exists>inp\<in>set rest. DEBOUNCE_DELAY < millisCheck inp - millisCheck f))"

definition black :: RGB where
  "black = \<lparr>r = 0, g = 0, b = 0\<rparr>"


text \<open>
  What the switch of \<^verbatim>\<open>updateLEDs\<close> leaves in \<^verbatim>\<open>targetColor[i]\<close> when its table reads
  are inside the tables, given the previous content \<open>old\<close> of that cell.
\<close>

definition modeTarget :: "state \<Rightarrow> nat \<Rightarrow> RGB \<Rightarrow> RGB" where
  "modeTarget s i old =
     (if currentMode s = MODE_UNIFIED then colors ! nat (currentColorIndex s)
      else if currentMode s = MODE_COMPLEMENTARY then
        (if complementary_LED_map ! i = COMPLEMENTARY_FRONT
         then colors ! nat (currentColorIndex s)
         else complementary_colors ! nat (currentColorIndex s))
      else if currentMode s = MODE_RAIN then
        (if rain_phase_LED_map ! i = currentRainPhase s then colors ! nat (currentColorIndex s)
         else if rain_phase_LED_map ! i =
                 (if currentRainPhase s + 1 > 2 then currentRainPhase s + 1 - 3
                  else currentRainPhase s + 1)
         then halfwayBetweenColors (colors ! nat (currentColorIndex s))
                (complementary_colors ! nat (currentColorIndex s))
         else if rain_phase_LED_map ! i =
                 (if currentRainPhase s + 2 > 2 then currentRainPhase s + 2 - 3
                  else currentRainPhase s + 2)
         then complementary_colors ! nat (currentColorIndex s)
         else old)
      else old)"

text \<open>One unit from \<open>a\<close> towards \<open>t\<close>, and no further than \<open>t\<close>.\<close>

definition stepToward :: "int \<Rightarrow> int \<Rightarrow> int" where
  "stepToward a t = (if a < t then a + 1 else if t < a then a - 1 else a)"

text \<open>The colour the graduation loop leaves in \<^verbatim>\<open>actualColor[i]\<close>.\<close>

definition graduateRGB :: "RGB \<Rightarrow> RGB \<Rightarrow> RGB" where
  "graduateRGB a t =
     \<lparr>r = word_of_int (graduateChannel (r a) (r t)),
      g = word_of_int (graduateChannel (g a) (g t)),
      b = word_of_int (graduateChannel (b a) (b t))\<rparr>"

text \<open>
  Successive calls of \<^verbatim>\<open>updateLEDs\<close> at the clock values of the list, and the condition
  that each of them passes the frame-rate test, given the time of the last update.
\<close>

fun runUpdateLEDs :: "ulong list \<Rightarrow> state \<Rightarrow> state option" where
  "runUpdateLEDs [] s = Some s"
| "runUpdateLEDs (t # ts) s =
     (case updateLEDs t s of None \<Rightarrow> None | Some s' \<Rightarrow> runUpdateLEDs ts s')"

fun eligibleTimes :: "ulong \<Rightarrow> ulong list \<Rightarrow> bool" where
  "eligibleTimes prev [] = True"
| "eligibleTimes prev (t # ts) = (exceedsUpdateDelay (t - prev) \<and> eligibleTimes t ts)"

text \<open>Example states and ticks: the initial globals in each mode, and a strip that has settled.\<close>

definition complementaryExample :: state where
  "complementaryExample = (initState blankEeprom)\<lparr>currentMode := MODE_COMPLEMENTARY\<rparr>"


definition settledExample :: state where
  "settledExample =
     (initState blankEeprom)\<lparr>targetColor := replicate NUM_LEDS (colors ! 0),
                              actualColor := replicate NUM_LEDS (colors ! 0)\<rparr>"

text \<open>A first pass of the loop 5 ms after the start, with both buttons up.\<close>

definition earlyTick :: tick where
  "earlyTick =
     \<lparr>pinButton1 = False, pinButton2 = False, millisCheck = 5, millisChange1 = 5,
      millisChange2 = 5, millisPhase = 5, millisLEDs = 5\<rparr>"

definition afterEarlyTick :: "state option" where
  "afterEarlyTick = Option.bind (setupSketch blankEeprom) (loop earlyTick)"

text \<open>The distance of a channel (or of the brightness) from its target.\<close>

definition channelGap :: "byte \<Rightarrow> byte \<Rightarrow> int" where
  "channelGap a t = \<bar>uint a - uint t\<bar>"

text \<open>Clock values 10 ms apart, starting at 10 ms: each passes the frame-rate test.\<close>

definition frameTimes :: "nat \<Rightarrow> ulong list" where
  "frameTimes n = map (\<lambda>k. 10 * of_nat (Suc k)) [0..<n]"

text \<open>
  Button \<open>i\<close> has read \<open>v\<close> since the clock value \<open>t0\<close> and the change is not registered
  yet; the other button is at rest.
\<close>

definition pendingChange :: "nat \<Rightarrow> bool \<Rightarrow> ulong \<Rightarrow> state \<Rightarrow> bool" where
  "pendingChange i v t0 s =
     (buttonArraysOK s \<and> btnState s ! i = (\<not> v) \<and> lastBtnState s ! i = v \<and>
      lastBtnDebounceTime s ! i = t0 \<and> lastBtnState s ! (1 - i) = btnState s ! (1 - i))"

text \<open>A tick at which every call of \<^verbatim>\<open>millis()\<close> returns \<open>t\<close>, and an example of the four phases.\<close>

definition tickAt :: "bool \<Rightarrow> bool \<Rightarrow> ulong \<Rightarrow> tick" where
  "tickAt p1 p2 t =
     \<lparr>pinButton1 = p1, pinButton2 = p2, millisCheck = t, millisChange1 = t,
      millisChange2 = t, millisPhase = t, millisLEDs = t\<rparr>"

definition examplePressA :: "tick list" where
  "examplePressA = [tickAt True False 1000, tickAt True False 1060]"

definition examplePressB :: "tick list" where
  "examplePressB = [tickAt True True 2000, tickAt True True 2060]"

definition exampleReleaseB :: "tick list" where
  "exampleReleaseB = [tickAt True False 3000, tickAt True False 3060]"

definition exampleReleaseA :: "tick list" where
  "exampleReleaseA = [tickAt False False 4000, tickAt False False 4060]"

text \<open>The initial globals with the strip dark: \<^verbatim>\<open>actualBrightness\<close> 0, as after \<^verbatim>\<open>loadState\<close>.\<close>

definition darkExample :: state where
  "darkExample = (initState blankEeprom)\<lparr>actualBrightness := 0\<rparr>"

section \<open>Helper facts on bytes\<close>

lemma uint_byte_of_int: "0 \<le> x \<Longrightarrow> x < 256 \<Longrightarrow> uint (word_of_int x :: byte) = x"
  by (simp add: uint_word_of_int)

lemma uint_byte_less: "uint (x :: byte) < 256"
  using uint_bounded [of x] by simp

section \<open>The halfway blend\<close>

lemma halfway_channel_int:
  fixes x y :: byte
  assumes "uint x < uint y"
  shows "uint (word_of_int (uint x + (uint y - uint x) div 2) :: byte) = uint x + (uint y - uint x) div 2"
proof (rule uint_byte_of_int)
  show "0 \<le> uint x + (uint y - uint x) div 2" using assms by simp
  show "uint x + (uint y - uint x) div 2 < 256" using assms uint_byte_less [of y] by linarith
qed

lemma halfway_channel_word:
  fixes x y :: byte
  shows "uint x < uint y \<Longrightarrow>
    uint (x + word_of_int ((uint y - uint x) div 2)) = uint x + (uint y - uint x) div 2"
  using halfway_channel_int [of x y] by simp

text \<open>
  Claim C4. The halfway blend works on each channel by itself: the lower of the two values
  plus half their distance, rounded down, with no wrap-around in the byte it is stored in;
  so the red channel of the blend of (255,0,0) and (0,0,0) is 127.
\<close>

theorem halfwayBetweenColors_channels:
  "uint (r (halfwayBetweenColors A B)) =
     (if uint (r A) < uint (r B) then uint (r A) + (uint (r B) - uint (r A)) div 2
      else if uint (r B) < uint (r A) then uint (r B) + (uint (r A) - uint (r B)) div 2
      else uint (r A))
   \<and> uint (g (halfwayBetweenColors A B)) =
     (if uint (g A) < uint (g B) then uint (g A) + (uint (g B) - uint (g A)) div 2
      else if uint (g B) < uint (g A) then uint (g B) + (uint (g A) - uint (g B)) div 2
      else uint (g A))
   \<and> uint (b (halfwayBetweenColors A B)) =
     (if uint (b A) < uint (b B) then uint (b A) + (uint (b B) - uint (b A)) div 2
      else if uint (b B) < uint (b A) then uint (b B) + (uint (b A) - uint (b B)) div 2
      else uint (b A))
   \<and> r (halfwayBetweenColors \<lparr>r = 255, g = 0, b = 0\<rparr> \<lparr>r = 0, g = 0, b = 0\<rparr>) = 127
   \<and> r (halfwayBetweenColors \<lparr>r = 255, g = 0, b = 0\<rparr> \<lparr>r = 0, g = 0, b = 0\<rparr>) \<noteq> 128"
proof (intro conjI)
  show "uint (r (halfwayBetweenColors A B)) =
     (if uint (r A) < uint (r B) then uint (r A) + (uint (r B) - uint (r A)) div 2
      else if uint (r B) < uint (r A) then uint (r B) + (uint (r A) - uint (r B)) div 2
      else uint (r A))"
    by (simp add: halfwayBetweenColors_def Let_def halfway_channel_word)
  show "uint (g (halfwayBetweenColors A B)) =
     (if uint (g A) < uint (g B) then uint (g A) + (uint (g B) - uint (g A)) div 2
      else if uint (g B) < uint (g A) then uint (g B) + (uint (g A) - uint (g B)) div 2
      else uint (g A))"
    by (simp add: halfwayBetweenColors_def Let_def halfway_channel_word)
  show "uint (b (halfwayBetweenColors A B)) =
     (if uint (b A) < uint (b B) then uint (b A) + (uint (b B) - uint (b A)) div 2
      else if uint (b B) < uint (b A) then uint (b B) + (uint (b A) - uint (b B)) div 2
      else uint (b A))"
    by (simp add: halfwayBetweenColors_def Let_def halfway_channel_word)
  have red: "r (halfwayBetweenColors \<lparr>r = 255, g = 0, b = 0\<rparr> \<lparr>r = 0, g = 0, b = 0\<rparr>) = 127"
    by (simp add: halfwayBetweenColors_def Let_def)
  then show "r (halfwayBetweenColors \<lparr>r = 255, g = 0, b = 0\<rparr> \<lparr>r = 0, g = 0, b = 0\<rparr>) = 127" .
  from red show "r (halfwayBetweenColors \<lparr>r = 255, g = 0, b = 0\<rparr> \<lparr>r = 0, g = 0, b = 0\<rparr>) \<noteq> 128"
    by simp
qed

section \<open>The cycling operations\<close>

lemma saveState_fields [simp]:
  "currentMode (saveState s) = currentMode s"
  "inputBrightnessLevel (saveState s) = inputBrightnessLevel s"
  "currentColorIndex (saveState s) = currentColorIndex s"
  "actionLog (saveState s) = actionLog s"
  by (simp_all add: saveState_def Let_def)

lemma byte_cases3: "unat (m :: byte) < 3 \<Longrightarrow> m = 0 \<or> m = 1 \<or> m = 2"
  by unat_arith

lemma byte_cases5: "unat (m :: byte) < 5 \<Longrightarrow> m = 0 \<or> m = 1 \<or> m = 2 \<or> m = 3 \<or> m = 4"
  by unat_arith

lemma cycleMode_mode: "currentMode (cycleMode s) =
    (if currentMode s + 1 \<ge> 3 then 0 else currentMode s + 1)"
  by (simp add: cycleMode_def Let_def MODECOUNT_def)

lemma cycleMode_unat:
  assumes "unat (currentMode s) < 3"
  shows "unat (currentMode (cycleMode s)) = (unat (currentMode s) + 1) mod 3"
  using byte_cases3 [OF assms] by (auto simp: cycleMode_mode word_le_nat_alt)

lemma incBrightness_level: "inputBrightnessLevel (incBrightness s) =
    (if inputBrightnessLevel s + 1 > 4 then 0 else inputBrightnessLevel s + 1)"
  by (simp add: incBrightness_def Let_def)

lemma incBrightness_unat:
  assumes "unat (inputBrightnessLevel s) < 5"
  shows "unat (inputBrightnessLevel (incBrightness s)) = (unat (inputBrightnessLevel s) + 1) mod 5"
  using byte_cases5 [OF assms] by (auto simp: incBrightness_level word_less_nat_alt)

lemma cycleColor_index: "currentColorIndex (cycleColor s) =
    (if (word_of_int (currentColorIndex s + 1) :: byte) \<ge> 8 then 0
     else uint (word_of_int (currentColorIndex s + 1) :: byte))"
  by (simp add: cycleColor_def Let_def NUM_COLORS_def)

lemma cycleColor_mod:
  assumes "0 \<le> currentColorIndex s" "currentColorIndex s \<le> 7"
  shows "currentColorIndex (cycleColor s) = (currentColorIndex s + 1) mod 8"
proof -
  from assms have "currentColorIndex s \<in> {0, 1, 2, 3, 4, 5, 6, 7}" by auto
  then show ?thesis by (auto simp: cycleColor_index word_le_nat_alt)
qed

lemma cycleMode_funpow:
  "unat (currentMode s) < 3 \<Longrightarrow>
   unat (currentMode ((cycleMode ^^ k) s)) = (unat (currentMode s) + k) mod 3"
proof (induction k)
  case 0 then show ?case by simp
next
  case (Suc k)
  then have "unat (currentMode ((cycleMode ^^ k) s)) < 3" by simp
  from cycleMode_unat [OF this] Suc show ?case by (simp add: mod_Suc_eq)
qed

lemma incBrightness_funpow:
  "unat (inputBrightnessLevel s) < 5 \<Longrightarrow>
   unat (inputBrightnessLevel ((incBrightness ^^ k) s)) = (unat (inputBrightnessLevel s) + k) mod 5"
proof (induction k)
  case 0 then show ?case by simp
next
  case (Suc k)
  then have "unat (inputBrightnessLevel ((incBrightness ^^ k) s)) < 5" by simp
  from incBrightness_unat [OF this] Suc show ?case by (simp add: mod_Suc_eq)
qed

lemma cycleColor_funpow:
  "0 \<le> currentColorIndex s \<Longrightarrow> currentColorIndex s \<le> 7 \<Longrightarrow>
   currentColorIndex ((cycleColor ^^ k) s) = (currentColorIndex s + int k) mod 8"
proof (induction k)
  case 0 then show ?case by simp
next
  case (Suc k)
  then have "0 \<le> currentColorIndex ((cycleColor ^^ k) s)" "currentColorIndex ((cycleColor ^^ k) s) \<le> 7"
    by simp_all
  from cycleColor_mod [OF this] Suc show ?case by (simp add: mod_simps add.commute add.left_commute)
qed

text \<open>
  Claim C8. From an in-range colour index, eight calls of \<^verbatim>\<open>cycleColor\<close> give the index
  back and no smaller positive number of calls does; the same for \<^verbatim>\<open>cycleMode\<close> with
  three calls on the mode and for \<^verbatim>\<open>incBrightness\<close> with five calls on the level.
\<close>

theorem cycling_orders:
  "(0 \<le> currentColorIndex s \<and> currentColorIndex s \<le> 7 \<longrightarrow>
      currentColorIndex ((cycleColor ^^ 8) s) = currentColorIndex s \<and>
      (\<forall>k. 0 < k \<and> k < 8 \<longrightarrow> currentColorIndex ((cycleColor ^^ k) s) \<noteq> currentColorIndex s))
   \<and> (unat (currentMode s) \<le> 2 \<longrightarrow>
      currentMode ((cycleMode ^^ 3) s) = currentMode s \<and>
      (\<forall>k. 0 < k \<and> k < 3 \<longrightarrow> currentMode ((cycleMode ^^ k) s) \<noteq> currentMode s))
   \<and> (unat (inputBrightnessLevel s) \<le> 4 \<longrightarrow>
      inputBrightnessLevel ((incBrightness ^^ 5) s) = inputBrightnessLevel s \<and>
      (\<forall>k. 0 < k \<and> k < 5 \<longrightarrow> inputBrightnessLevel ((incBrightness ^^ k) s) \<noteq> inputBrightnessLevel s))"
proof (intro conjI impI allI)
  assume h: "0 \<le> currentColorIndex s \<and> currentColorIndex s \<le> 7"
  then show "currentColorIndex ((cycleColor ^^ 8) s) = currentColorIndex s"
    using cycleColor_funpow [of s 8] by simp
  fix k :: nat assume k: "0 < k \<and> k < 8"
  have "(currentColorIndex s + int k) mod 8 \<noteq> currentColorIndex s"
    using h k by presburger
  then show "currentColorIndex ((cycleColor ^^ k) s) \<noteq> currentColorIndex s"
    using cycleColor_funpow [of s k] h by simp
next
  assume h: "unat (currentMode s) \<le> 2"
  then have h3: "unat (currentMode s) < 3" by simp
  have "unat (currentMode ((cycleMode ^^ 3) s)) = unat (currentMode s)"
    using cycleMode_funpow [OF h3, of 3] h3 by simp
  then show "currentMode ((cycleMode ^^ 3) s) = currentMode s"
    by (simp add: word_unat_eq_iff)
  fix k :: nat assume k: "0 < k \<and> k < 3"
  have "(unat (currentMode s) + k) mod 3 \<noteq> unat (currentMode s)"
    using h3 k by presburger
  then show "currentMode ((cycleMode ^^ k) s) \<noteq> currentMode s"
    using cycleMode_funpow [OF h3, of k] by (auto simp: word_unat_eq_iff)
next
  assume h: "unat (inputBrightnessLevel s) \<le> 4"
  then have h5: "unat (inputBrightnessLevel s) < 5" by simp
  have "unat (inputBrightnessLevel ((incBrightness ^^ 5) s)) = unat (inputBrightnessLevel s)"
    using incBrightness_funpow [OF h5, of 5] h5 by simp
  then show "inputBrightnessLevel ((incBrightness ^^ 5) s) = inputBrightnessLevel s"
    by (simp add: word_unat_eq_iff)
  fix k :: nat assume k: "0 < k \<and> k < 5"
  have "(unat (inputBrightnessLevel s) + k) mod 5 \<noteq> unat (inputBrightnessLevel s)"
    using h5 k by presburger
  then show "inputBrightnessLevel ((incBrightness ^^ k) s) \<noteq> inputBrightnessLevel s"
    using incBrightness_funpow [OF h5, of k] by (auto simp: word_unat_eq_iff)
qed

theorem cycling_orders_witness:
  "currentColorIndex (initState blankEeprom) = 0
   \<and> currentColorIndex ((cycleColor ^^ 8) (initState blankEeprom)) = 0
   \<and> currentColorIndex ((cycleColor ^^ 3) (initState blankEeprom)) \<noteq> 0
   \<and> currentMode (initState blankEeprom) = 0
   \<and> currentMode ((cycleMode ^^ 3) (initState blankEeprom)) = 0
   \<and> currentMode ((cycleMode ^^ 2) (initState blankEeprom)) \<noteq> 0
   \<and> inputBrightnessLevel (initState blankEeprom) = 3
   \<and> inputBrightnessLevel ((incBrightness ^^ 5) (initState blankEeprom)) = 3
   \<and> inputBrightnessLevel ((incBrightness ^^ 4) (initState blankEeprom)) \<noteq> 3"
proof -
  have c: "currentColorIndex (initState blankEeprom) = 0"
    and m: "currentMode (initState blankEeprom) = 0"
    and l: "inputBrightnessLevel (initState blankEeprom) = 3"
    by (simp_all add: initState_def MODE_UNIFIED_def)
  show ?thesis
    using cycling_orders [of "initState blankEeprom"] c m l by simp
qed

section \<open>Loops over the strip\<close>

lemma fold_update_length [simp]:
  "length (fold (\<lambda>i t. t[i := w i (t ! i)]) is t) = length t"
  by (induction "is" arbitrary: t) simp_all

lemma fold_update_nth:
  "distinct is \<Longrightarrow> \<forall>i\<in>set is. i < length t \<Longrightarrow>
   fold (\<lambda>i t. t[i := w i (t ! i)]) is t ! j = (if j \<in> set is then w j (t ! j) else t ! j)"
proof (induction "is" arbitrary: t)
  case Nil
  then show ?case by simp
next
  case (Cons i "is")
  then show ?case by (auto simp: nth_list_update)
qed


section \<open>Loading and saving\<close>

lemma brightnessAt_Some: "unat i < 5 \<Longrightarrow> brightnessAt i = Some (brightnessValues ! unat i)"
  by (simp add: brightnessAt_def brightnessValues_def)



lemma saveState_eeprom:
  "eeprom (saveState s) 0 = currentMode s"
  "eeprom (saveState s) 1 = inputBrightnessLevel s"
  "eeprom (saveState s) (Suc 0) = inputBrightnessLevel s"
  "eeprom (saveState s) 2 = word_of_int (currentColorIndex s)"
  by (simp_all add: saveState_def Let_def)

lemma byte_small_not_sentinel: "unat (m :: byte) \<le> 7 \<Longrightarrow> m \<noteq> 255"
  by auto

text \<open>
  Claim C10. When the selection is in range, \<^verbatim>\<open>saveState\<close> followed by \<^verbatim>\<open>loadState\<close>
  on any state that holds the saved EEPROM (the same state, or the initial one after a
  power cycle) gives the saved mode, level and colour index back.
\<close>

theorem save_then_load:
  assumes "selectionInRange s" and "eeprom t = eeprom (saveState s)"
  shows "\<exists>t'. loadState t = Some t' \<and> currentMode t' = currentMode s \<and>
           inputBrightnessLevel t' = inputBrightnessLevel s \<and>
           currentColorIndex t' = currentColorIndex s"
proof -
  from assms(1) have m: "unat (currentMode s) \<le> 7" and l: "unat (inputBrightnessLevel s) \<le> 7"
    and l5: "unat (inputBrightnessLevel s) < 5"
    and c: "0 \<le> currentColorIndex s" "currentColorIndex s < 256"
    by (simp_all add: selectionInRange_def)
  have u: "uint (word_of_int (currentColorIndex s) :: byte) = currentColorIndex s"
    using c by (rule uint_byte_of_int)
  have c255: "(word_of_int (currentColorIndex s) :: byte) \<noteq> 255"
  proof
    assume "(word_of_int (currentColorIndex s) :: byte) = 255"
    then have "uint (word_of_int (currentColorIndex s) :: byte) = 255" by simp
    with u assms(1) show False by (simp add: selectionInRange_def)
  qed
  have "eeprom t 0 = currentMode s" "eeprom t (Suc 0) = inputBrightnessLevel s"
    "eeprom t 2 = word_of_int (currentColorIndex s)"
    using assms(2) by (simp_all add: saveState_eeprom)
  then show ?thesis
    using byte_small_not_sentinel [OF m] byte_small_not_sentinel [OF l] c255 u l5
    by (simp add: loadState_def Let_def brightnessAt_Some)
qed

theorem save_then_load_witness:
  "selectionInRange (initState blankEeprom) \<and>
   (\<exists>t'. loadState (saveState (initState blankEeprom)) = Some t' \<and> currentMode t' = 0 \<and>
           inputBrightnessLevel t' = 3 \<and> currentColorIndex t' = 0)"
proof -
  have h: "selectionInRange (initState blankEeprom)"
    by (simp add: selectionInRange_def initState_def MODE_UNIFIED_def)
  have f: "currentMode (initState blankEeprom) = 0" "inputBrightnessLevel (initState blankEeprom) = 3"
    "currentColorIndex (initState blankEeprom) = 0"
    by (simp_all add: initState_def MODE_UNIFIED_def)
  from save_then_load [OF h, of "saveState (initState blankEeprom)"] h f
  show ?thesis by simp
qed

section \<open>The target colours\<close>

lemma forEach_fold:
  assumes body: "\<And>i x x'. f i x = Some x' \<Longrightarrow> x' = h i x"
  shows "forEach f is t = Some t' \<Longrightarrow> t' = fold h is t"
  by (induction "is" arbitrary: t) (auto split: option.splits dest: body)

lemma forEach_total:
  assumes body: "\<And>i x. f i x \<noteq> None"
  shows "forEach f is t \<noteq> None"
proof (induction "is" arbitrary: t)
  case Nil
  show ?case by simp
next
  case (Cons i "is")
  from body [of i t] obtain x where "f i t = Some x" by auto
  with Cons show ?case by simp
qed

lemma forEach_defined_indep:
  assumes body: "\<And>i x y. f i x = None \<Longrightarrow> f i y = None"
  shows "forEach f is t = None \<Longrightarrow> forEach f is u = None"
proof (induction "is" arbitrary: t u)
  case Nil
  then show ?case by simp
next
  case (Cons i "is")
  show ?case
  proof (cases "f i t")
    case None
    from body [OF this] show ?thesis by simp
  next
    case (Some x)
    with Cons.prems have n: "forEach f is x = None" by simp
    show ?thesis
    proof (cases "f i u")
      case None
      then show ?thesis by simp
    next
      case (Some y)
      with Cons.IH [OF n, of y] show ?thesis by simp
    qed
  qed
qed

lemma colorsAt_Some: "colorsAt i = Some c \<Longrightarrow> c = colors ! nat i"
  by (simp add: colorsAt_def split: if_splits)

lemma complementaryAt_Some: "complementaryAt i = Some c \<Longrightarrow> c = complementary_colors ! nat i"
  by (simp add: complementaryAt_def split: if_splits)

lemma colorsAt_in_range: "0 \<le> i \<Longrightarrow> i \<le> 7 \<Longrightarrow> colorsAt i = Some (colors ! nat i)"
  by (simp add: colorsAt_def colors_def)

lemma complementaryAt_in_range:
  "0 \<le> i \<Longrightarrow> i \<le> 7 \<Longrightarrow> complementaryAt i = Some (complementary_colors ! nat i)"
  by (simp add: complementaryAt_def complementary_colors_def)

lemma unifiedLED_Some:
  "unifiedLED idx i x = Some x' \<Longrightarrow> x' = x[i := colors ! nat idx]"
  by (auto simp: unifiedLED_def split: option.splits dest: colorsAt_Some)

lemma complementaryLED_Some:
  "complementaryLED idx i x = Some x' \<Longrightarrow>
   x' = x[i := (if complementary_LED_map ! i = COMPLEMENTARY_FRONT then colors ! nat idx
                else complementary_colors ! nat idx)]"
  by (auto simp: complementaryLED_def split: option.splits if_splits
      dest: colorsAt_Some complementaryAt_Some)

lemma rainLED_Some:
  "rainLED p1 p2 p3 idx i x = Some x' \<Longrightarrow>
   x' = x[i := (if rain_phase_LED_map ! i = p1 then colors ! nat idx
                else if rain_phase_LED_map ! i = p2
                then halfwayBetweenColors (colors ! nat idx) (complementary_colors ! nat idx)
                else if rain_phase_LED_map ! i = p3 then complementary_colors ! nat idx
                else x ! i)]"
  by (auto simp: rainLED_def split: option.splits if_splits
      dest: colorsAt_Some complementaryAt_Some)

lemma fold_update_same: "fold (\<lambda>i t. t) is t = t"
  by (induction "is") simp_all

lemma setTargets_Some:
  assumes "setTargets s = Some t"
  shows "t = fold (\<lambda>i x. x[i := modeTarget s i (x ! i)]) [0..<NUM_LEDS] (targetColor s)"
proof -
  consider (u) "currentMode s = MODE_UNIFIED"
    | (c) "currentMode s \<noteq> MODE_UNIFIED" "currentMode s = MODE_COMPLEMENTARY"
    | (rn) "currentMode s \<noteq> MODE_UNIFIED" "currentMode s \<noteq> MODE_COMPLEMENTARY"
        "currentMode s = MODE_RAIN"
    | (o) "currentMode s \<noteq> MODE_UNIFIED" "currentMode s \<noteq> MODE_COMPLEMENTARY"
        "currentMode s \<noteq> MODE_RAIN"
    by blast
  then show ?thesis
  proof cases
    case u
    with assms have "forEach (unifiedLED (currentColorIndex s)) [0..<NUM_LEDS] (targetColor s) = Some t"
      by (simp add: setTargets_def)
    from forEach_fold [OF unifiedLED_Some this] u show ?thesis
      by (simp add: modeTarget_def)
  next
    case c
    with assms have
      "forEach (complementaryLED (currentColorIndex s)) [0..<NUM_LEDS] (targetColor s) = Some t"
      by (simp add: setTargets_def)
    from forEach_fold [OF complementaryLED_Some this] c show ?thesis
      by (simp add: modeTarget_def)
  next
    case rn
    with assms have
      "forEach (rainLED (currentRainPhase s)
          (if currentRainPhase s + 1 > 2 then currentRainPhase s + 1 - 3 else currentRainPhase s + 1)
          (if currentRainPhase s + 2 > 2 then currentRainPhase s + 2 - 3 else currentRainPhase s + 2)
          (currentColorIndex s)) [0..<NUM_LEDS] (targetColor s) = Some t"
      by (simp add: setTargets_def Let_def)
    from forEach_fold [OF rainLED_Some this] rn show ?thesis
      by (simp add: modeTarget_def)
  next
    case o
    with assms show ?thesis
      by (simp add: setTargets_def modeTarget_def fold_update_same)
  qed
qed

lemma setTargets_length:
  "setTargets s = Some t \<Longrightarrow> length t = length (targetColor s)"
  by (drule setTargets_Some) simp

lemma setTargets_nth:
  assumes "setTargets s = Some t" "length (targetColor s) = NUM_LEDS" "j < NUM_LEDS"
  shows "t ! j = modeTarget s j (targetColor s ! j)"
  using setTargets_Some [OF assms(1)] assms(2,3)
    fold_update_nth [of "[0..<NUM_LEDS]" "targetColor s" "modeTarget s" j]
  by simp

lemma unifiedLED_defined:
  "colorsAt idx \<noteq> None \<Longrightarrow> unifiedLED idx i x \<noteq> None"
  by (auto simp: unifiedLED_def)

lemma complementaryLED_defined:
  "colorsAt idx \<noteq> None \<Longrightarrow> complementaryAt idx \<noteq> None \<Longrightarrow> complementaryLED idx i x \<noteq> None"
  by (auto simp: complementaryLED_def)

lemma rainLED_defined:
  "colorsAt idx \<noteq> None \<Longrightarrow> complementaryAt idx \<noteq> None \<Longrightarrow> rainLED p1 p2 p3 idx i x \<noteq> None"
  by (auto simp: rainLED_def)

lemma setTargets_total:
  assumes "0 \<le> currentColorIndex s" "currentColorIndex s \<le> 7"
  shows "setTargets s \<noteq> None"
proof -
  have c: "colorsAt (currentColorIndex s) \<noteq> None"
    using colorsAt_in_range [OF assms] by simp
  have cc: "complementaryAt (currentColorIndex s) \<noteq> None"
    using complementaryAt_in_range [OF assms] by simp
  have 1: "forEach (unifiedLED (currentColorIndex s)) is x \<noteq> None" for "is" x
    by (rule forEach_total) (rule unifiedLED_defined [OF c])
  have 2: "forEach (complementaryLED (currentColorIndex s)) is x \<noteq> None" for "is" x
    by (rule forEach_total) (rule complementaryLED_defined [OF c cc])
  have 3: "forEach (rainLED p1 p2 p3 (currentColorIndex s)) is x \<noteq> None" for p1 p2 p3 "is" x
    by (rule forEach_total) (rule rainLED_defined [OF c cc])
  show ?thesis
    unfolding setTargets_def Let_def using 1 2 3 by simp
qed

lemma setTargets_cong:
  "currentMode u = currentMode s \<Longrightarrow> currentColorIndex u = currentColorIndex s \<Longrightarrow>
   currentRainPhase u = currentRainPhase s \<Longrightarrow> targetColor u = targetColor s \<Longrightarrow>
   setTargets u = setTargets s"
  by (simp add: setTargets_def)

lemma unifiedLED_None_indep: "unifiedLED idx i x = None \<Longrightarrow> unifiedLED idx i y = None"
  by (auto simp: unifiedLED_def split: option.splits)

lemma complementaryLED_None_indep:
  "complementaryLED idx i x = None \<Longrightarrow> complementaryLED idx i y = None"
  by (auto simp: complementaryLED_def split: option.splits if_splits)

lemma rainLED_None_indep:
  "rainLED p1 p2 p3 idx i x = None \<Longrightarrow> rainLED p1 p2 p3 idx i y = None"
  by (auto simp: rainLED_def split: option.splits if_splits)

lemma setTargets_defined_indep:
  assumes "currentMode u = currentMode s" "currentColorIndex u = currentColorIndex s"
    "currentRainPhase u = currentRainPhase s" "setTargets s \<noteq> None"
  shows "setTargets u \<noteq> None"
proof
  assume n: "setTargets u = None"
  have 1: "forEach (unifiedLED idx) is x = None \<Longrightarrow> forEach (unifiedLED idx) is y = None"
    for idx "is" x y
    by (rule forEach_defined_indep [of "unifiedLED idx"]) (rule unifiedLED_None_indep)
  have 2: "forEach (complementaryLED idx) is x = None \<Longrightarrow> forEach (complementaryLED idx) is y = None"
    for idx "is" x y
    by (rule forEach_defined_indep [of "complementaryLED idx"]) (rule complementaryLED_None_indep)
  have 3: "forEach (rainLED p1 p2 p3 idx) is x = None \<Longrightarrow> forEach (rainLED p1 p2 p3 idx) is y = None"
    for p1 p2 p3 idx "is" x y
    by (rule forEach_defined_indep [of "rainLED p1 p2 p3 idx"]) (rule rainLED_None_indep)
  have "setTargets s = None"
    using n assms(1-3) unfolding setTargets_def Let_def
    by (auto split: if_splits simp del: forEach.simps
        dest: 1 [where y = "targetColor s"] 2 [where y = "targetColor s"] 3 [where y = "targetColor s"])
  with assms(4) show False by simp
qed

lemma modeTarget_idem: "modeTarget s i (modeTarget s i x) = modeTarget s i x"
  by (simp add: modeTarget_def)

lemma modeTarget_cong:
  "currentMode u = currentMode s \<Longrightarrow> currentColorIndex u = currentColorIndex s \<Longrightarrow>
   currentRainPhase u = currentRainPhase s \<Longrightarrow> modeTarget u = modeTarget s"
  by (intro ext) (simp add: modeTarget_def)

lemma setTargets_stable:
  assumes s: "setTargets s = Some t" and len: "length (targetColor s) = NUM_LEDS"
    and u: "currentMode u = currentMode s" "currentColorIndex u = currentColorIndex s"
      "currentRainPhase u = currentRainPhase s" "targetColor u = t"
  shows "setTargets u = Some t"
proof -
  from s have "setTargets s \<noteq> None" by simp
  from setTargets_defined_indep [OF u(1-3) this] obtain t' where t': "setTargets u = Some t'"
    by auto
  have lt: "length t = NUM_LEDS" using setTargets_length [OF s] len by simp
  have lt': "length t' = NUM_LEDS" using setTargets_length [OF t'] u(4) lt by simp
  have "t' = t"
  proof (rule nth_equalityI)
    show "length t' = length t" using lt lt' by simp
  next
    fix j assume "j < length t'"
    then have j: "j < NUM_LEDS" using lt' by simp
    have "t' ! j = modeTarget u j (t ! j)"
      using setTargets_nth [OF t' _ j] u(4) lt by simp
    also have "\<dots> = modeTarget s j (modeTarget s j (targetColor s ! j))"
      using setTargets_nth [OF s len j] modeTarget_cong [OF u(1-3)] by simp
    also have "\<dots> = t ! j"
      using setTargets_nth [OF s len j] by (simp add: modeTarget_idem)
    finally show "t' ! j = t ! j" .
  qed
  with t' show ?thesis by simp
qed

section \<open>The graduation\<close>

lemma constrain_step:
  "0 \<le> a \<Longrightarrow> a < t \<Longrightarrow> constrain (a + 1) 0 t = stepToward a t"
  "t < a \<Longrightarrow> a < 256 \<Longrightarrow> constrain (a - 1) t 255 = stepToward a t"
  by (auto simp: constrain_def stepToward_def)

lemma stepToward_range:
  "0 \<le> a \<Longrightarrow> 0 \<le> t \<Longrightarrow> a < 256 \<Longrightarrow> t < 256 \<Longrightarrow>
   0 \<le> stepToward a t \<and> stepToward a t < 256"
  by (auto simp: stepToward_def)

lemma graduateChannel_step: "graduateChannel x t = stepToward (uint x) (uint t)"
proof -
  have "0 \<le> uint x" by simp
  moreover have "uint x < 256" by (rule uint_byte_less)
  ultimately show ?thesis
    unfolding graduateChannel_def Let_def LED_COLOR_GRADUATION_def
    by (auto simp: constrain_step) (simp add: stepToward_def)
qed

lemma stepToward_byte:
  fixes x t :: byte
  shows "uint (word_of_int (stepToward (uint x) (uint t)) :: byte) = stepToward (uint x) (uint t)"
proof -
  have "0 \<le> stepToward (uint x) (uint t) \<and> stepToward (uint x) (uint t) < 256"
    using stepToward_range [OF _ _ uint_byte_less uint_byte_less, of x t] by simp
  then show ?thesis by (intro uint_byte_of_int) simp_all
qed

lemma stepToward_same [simp]: "stepToward a a = a"
  by (simp add: stepToward_def)

lemma stepToward_distance: "\<bar>stepToward a t - t\<bar> = max 0 (\<bar>a - t\<bar> - 1)"
  by (auto simp: stepToward_def)

lemma graduateRGB_channels:
  "uint (r (graduateRGB a t)) = stepToward (uint (r a)) (uint (r t))"
  "uint (g (graduateRGB a t)) = stepToward (uint (g a)) (uint (g t))"
  "uint (b (graduateRGB a t)) = stepToward (uint (b a)) (uint (b t))"
  by (simp_all add: graduateRGB_def graduateChannel_step stepToward_byte del: of_int_add of_int_diff)

lemma graduateRGB_same: "r a = r t \<Longrightarrow> g a = g t \<Longrightarrow> b a = b t \<Longrightarrow> graduateRGB a t = a"
  by (simp add: graduateRGB_def graduateChannel_step)

lemma graduateLED_equal:
  "actualColor (snd cs) ! i = targetColor (snd cs) ! i \<Longrightarrow> graduateLED i cs = cs"
  by (simp add: graduateLED_def Let_def)

lemma graduateLED_snd:
  "\<exists>L. snd (graduateLED i cs) =
     (snd cs)\<lparr>actualColor := (actualColor (snd cs))[i :=
                  graduateRGB (actualColor (snd cs) ! i) (targetColor (snd cs) ! i)],
              stripLog := stripLog (snd cs) @ L\<rparr>"
proof (cases "r (actualColor (snd cs) ! i) \<noteq> r (targetColor (snd cs) ! i) \<or>
              g (actualColor (snd cs) ! i) \<noteq> g (targetColor (snd cs) ! i) \<or>
              b (actualColor (snd cs) ! i) \<noteq> b (targetColor (snd cs) ! i)")
  case True
  then show ?thesis
    by (simp add: graduateLED_def Let_def graduateRGB_def) (rule exI, rule refl)
next
  case False
  then have "graduateRGB (actualColor (snd cs) ! i) (targetColor (snd cs) ! i) = actualColor (snd cs) ! i"
    by (intro graduateRGB_same) simp_all
  with False have "snd (graduateLED i cs) =
     (snd cs)\<lparr>actualColor := (actualColor (snd cs))[i :=
                  graduateRGB (actualColor (snd cs) ! i) (targetColor (snd cs) ! i)],
              stripLog := stripLog (snd cs) @ []\<rparr>"
    by (simp add: graduateLED_def Let_def)
  then show ?thesis by blast
qed

lemma fold_graduateLED_snd:
  "\<exists>L. snd (fold graduateLED is cs) =
     (snd cs)\<lparr>actualColor :=
                fold (\<lambda>k a. a[k := graduateRGB (a ! k) (targetColor (snd cs) ! k)]) is
                  (actualColor (snd cs)),
              stripLog := stripLog (snd cs) @ L\<rparr>"
proof (induction "is" arbitrary: cs)
  case Nil
  have "snd cs = (snd cs)\<lparr>actualColor := actualColor (snd cs), stripLog := stripLog (snd cs) @ []\<rparr>"
    by simp
  then show ?case by (intro exI [of _ "[]"]) simp
next
  case (Cons i "is")
  from graduateLED_snd [of i cs] obtain L1 where 1: "snd (graduateLED i cs) =
     (snd cs)\<lparr>actualColor := (actualColor (snd cs))[i :=
                  graduateRGB (actualColor (snd cs) ! i) (targetColor (snd cs) ! i)],
              stripLog := stripLog (snd cs) @ L1\<rparr>" by blast
  from Cons [of "graduateLED i cs"] obtain L2 where 2: "snd (fold graduateLED is (graduateLED i cs)) =
     (snd (graduateLED i cs))\<lparr>actualColor :=
                fold (\<lambda>k a. a[k := graduateRGB (a ! k) (targetColor (snd (graduateLED i cs)) ! k)]) is
                  (actualColor (snd (graduateLED i cs))),
              stripLog := stripLog (snd (graduateLED i cs)) @ L2\<rparr>" by blast
  have "snd (fold graduateLED (i # is) cs) =
     (snd cs)\<lparr>actualColor :=
                fold (\<lambda>k a. a[k := graduateRGB (a ! k) (targetColor (snd cs) ! k)]) (i # is)
                  (actualColor (snd cs)),
              stripLog := stripLog (snd cs) @ (L1 @ L2)\<rparr>"
    by (simp add: 2) (simp add: 1)
  then show ?case by blast
qed

lemma fold_graduateLED_equal:
  "\<forall>i\<in>set is. actualColor (snd cs) ! i = targetColor (snd cs) ! i \<Longrightarrow>
   fold graduateLED is cs = cs"
  by (induction "is") (simp_all add: graduateLED_equal)

lemma graduateBrightness_snd:
  "\<exists>L. snd (graduateBrightness cs) =
     (snd cs)\<lparr>actualBrightness :=
                word_of_int (stepToward (uint (actualBrightness (snd cs))) (uint (targetBrightness (snd cs)))),
              stripLog := stripLog (snd cs) @ L\<rparr>"
proof (cases "targetBrightness (snd cs) = actualBrightness (snd cs)")
  case True
  then have "snd (graduateBrightness cs) =
     (snd cs)\<lparr>actualBrightness :=
                word_of_int (stepToward (uint (actualBrightness (snd cs))) (uint (targetBrightness (snd cs)))),
              stripLog := stripLog (snd cs) @ []\<rparr>"
    by (simp add: graduateBrightness_def Let_def)
  then show ?thesis by blast
next
  case False
  then have ne: "uint (targetBrightness (snd cs)) \<noteq> uint (actualBrightness (snd cs))"
    by (auto simp: word_uint_eq_iff)
  have lt: "constrain (uint (actualBrightness (snd cs)) + 1) 0 (uint (targetBrightness (snd cs))) =
          stepToward (uint (actualBrightness (snd cs))) (uint (targetBrightness (snd cs)))"
    if "uint (actualBrightness (snd cs)) < uint (targetBrightness (snd cs))"
    using that by (intro constrain_step) simp_all
  have gt: "constrain (uint (actualBrightness (snd cs)) - 1) (uint (targetBrightness (snd cs))) 255 =
          stepToward (uint (actualBrightness (snd cs))) (uint (targetBrightness (snd cs)))"
    if "\<not> uint (actualBrightness (snd cs)) < uint (targetBrightness (snd cs))"
    using that ne by (intro constrain_step) (simp_all add: uint_byte_less)
  show ?thesis
  proof (cases "uint (actualBrightness (snd cs)) < uint (targetBrightness (snd cs))")
    case True
    with False lt show ?thesis
      by (simp add: graduateBrightness_def Let_def LED_COLOR_GRADUATION_def del: of_int_add of_int_diff)
         (rule exI, rule refl)
  next
    case b: False
    with False gt show ?thesis
      by (simp add: graduateBrightness_def Let_def LED_COLOR_GRADUATION_def del: of_int_add of_int_diff)
         (rule exI, rule refl)
  qed
qed

lemma graduateBrightness_equal:
  "targetBrightness (snd cs) = actualBrightness (snd cs) \<Longrightarrow> graduateBrightness cs = cs"
  by (simp add: graduateBrightness_def Let_def)

text \<open>What a call of \<^verbatim>\<open>updateLEDs\<close> that passes the frame-rate test returns.\<close>

lemma updateLEDs_eligible:
  assumes "exceedsUpdateDelay (now - lastLEDUpdate s)" "updateLEDs now s = Some s'"
  shows "\<exists>t L. setTargets s = Some t \<and>
           s' = s\<lparr>targetColor := t,
                  actualColor := fold (\<lambda>i a. a[i := graduateRGB (a ! i) (t ! i)]) [0..<NUM_LEDS]
                                   (actualColor s),
                  actualBrightness :=
                    word_of_int (stepToward (uint (actualBrightness s)) (uint (targetBrightness s))),
                  stripLog := stripLog s @ L,
                  lastLEDUpdate := now\<rparr>"
proof -
  from assms obtain t where t: "setTargets s = Some t"
    by (auto simp: updateLEDs_def split: option.splits)
  define cs1 where "cs1 = fold graduateLED [0..<NUM_LEDS] (False, s\<lparr>targetColor := t\<rparr>)"
  define cs2 where "cs2 = graduateBrightness cs1"
  from fold_graduateLED_snd [of "[0..<NUM_LEDS]" "(False, s\<lparr>targetColor := t\<rparr>)"]
  obtain L1 where 1: "snd cs1 = s\<lparr>targetColor := t,
      actualColor := fold (\<lambda>i a. a[i := graduateRGB (a ! i) (t ! i)]) [0..<NUM_LEDS] (actualColor s),
      stripLog := stripLog s @ L1\<rparr>"
    by (auto simp: cs1_def)
  from graduateBrightness_snd [of cs1]
  obtain L2 where 2: "snd cs2 = (snd cs1)\<lparr>actualBrightness :=
                word_of_int (stepToward (uint (actualBrightness (snd cs1))) (uint (targetBrightness (snd cs1)))),
              stripLog := stripLog (snd cs1) @ L2\<rparr>"
    by (auto simp: cs2_def)
  have "s' = (if fst cs2 then (snd cs2)\<lparr>stripLog := stripLog (snd cs2) @ [Show]\<rparr> else snd cs2)
               \<lparr>lastLEDUpdate := now\<rparr>"
    using assms t by (auto simp: updateLEDs_def Let_def cs1_def cs2_def)
  then have "s' = s\<lparr>targetColor := t,
                  actualColor := fold (\<lambda>i a. a[i := graduateRGB (a ! i) (t ! i)]) [0..<NUM_LEDS]
                                   (actualColor s),
                  actualBrightness :=
                    word_of_int (stepToward (uint (actualBrightness s)) (uint (targetBrightness s))),
                  stripLog := stripLog s @ (L1 @ L2 @ (if fst cs2 then [Show] else [])),
                  lastLEDUpdate := now\<rparr>"
    by (simp add: 2 1)
  with t show ?thesis by blast
qed

lemma updateLEDs_not_eligible:
  "\<not> exceedsUpdateDelay (now - lastLEDUpdate s) \<Longrightarrow> updateLEDs now s = Some s"
  by (simp add: updateLEDs_def)

lemma updateLEDs_total:
  assumes "0 \<le> currentColorIndex s" "currentColorIndex s \<le> 7"
  shows "updateLEDs now s \<noteq> None"
  using setTargets_total [OF assms]
  by (auto simp: updateLEDs_def Let_def split: option.splits)

section \<open>Targets and frames\<close>

lemma updateLEDs_targets:
  assumes "exceedsUpdateDelay (now - lastLEDUpdate s)" "0 \<le> currentColorIndex s"
    "currentColorIndex s \<le> 7" "length (targetColor s) = NUM_LEDS"
  shows "\<exists>s'. updateLEDs now s = Some s' \<and>
           (\<forall>i<NUM_LEDS. targetColor s' ! i = modeTarget s i (targetColor s ! i))"
proof -
  from updateLEDs_total [OF assms(2,3), of now] obtain s' where s': "updateLEDs now s = Some s'"
    by auto
  from updateLEDs_eligible [OF assms(1) s'] obtain t where
    t: "setTargets s = Some t" "targetColor s' = t" by auto
  from setTargets_nth [OF t(1) assms(4)] t(2) s' show ?thesis by simp
qed





text \<open>
  Claim C7, amended. The target colours are recomputed inside the frame-rate test of
  \<^verbatim>\<open>updateLEDs\<close>, not on every tick: a call that passes the test sets every target to the
  base colour in Unified mode, and to the base colour in front and the complementary colour
  in the rear in Complementary mode; a call that does not pass the test changes nothing,
  the targets included.
\<close>

theorem targets_recomputed_on_eligible_ticks:
  "(exceedsUpdateDelay (now - lastLEDUpdate s) \<and> currentMode s = MODE_UNIFIED \<and>
    0 \<le> currentColorIndex s \<and> currentColorIndex s \<le> 7 \<and> length (targetColor s) = NUM_LEDS \<longrightarrow>
      (\<exists>s'. updateLEDs now s = Some s' \<and>
         (\<forall>i<NUM_LEDS. targetColor s' ! i = colors ! nat (currentColorIndex s))))
   \<and> (exceedsUpdateDelay (now - lastLEDUpdate s) \<and> currentMode s = MODE_COMPLEMENTARY \<and>
    0 \<le> currentColorIndex s \<and> currentColorIndex s \<le> 7 \<and> length (targetColor s) = NUM_LEDS \<longrightarrow>
      (\<exists>s'. updateLEDs now s = Some s' \<and>
         (\<forall>i<NUM_LEDS. targetColor s' ! i =
            (if complementary_LED_map ! i = COMPLEMENTARY_FRONT
             then colors ! nat (currentColorIndex s)
             else complementary_colors ! nat (currentColorIndex s)))))
   \<and> (\<not> exceedsUpdateDelay (now - lastLEDUpdate s) \<longrightarrow> updateLEDs now s = Some s)"
proof (intro conjI impI)
  assume h: "exceedsUpdateDelay (now - lastLEDUpdate s) \<and> currentMode s = MODE_UNIFIED \<and>
    0 \<le> currentColorIndex s \<and> currentColorIndex s \<le> 7 \<and> length (targetColor s) = NUM_LEDS"
  then have "modeTarget s i x = colors ! nat (currentColorIndex s)" for i x
    by (simp add: modeTarget_def)
  with updateLEDs_targets [of now s] h
  show "\<exists>s'. updateLEDs now s = Some s' \<and>
         (\<forall>i<NUM_LEDS. targetColor s' ! i = colors ! nat (currentColorIndex s))"
    by simp
next
  assume h: "exceedsUpdateDelay (now - lastLEDUpdate s) \<and> currentMode s = MODE_COMPLEMENTARY \<and>
    0 \<le> currentColorIndex s \<and> currentColorIndex s \<le> 7 \<and> length (targetColor s) = NUM_LEDS"
  then have "modeTarget s i x = (if complementary_LED_map ! i = COMPLEMENTARY_FRONT
             then colors ! nat (currentColorIndex s)
             else complementary_colors ! nat (currentColorIndex s))" for i x
    by (simp add: modeTarget_def MODE_COMPLEMENTARY_def MODE_UNIFIED_def)
  with updateLEDs_targets [of now s] h
  show "\<exists>s'. updateLEDs now s = Some s' \<and>
         (\<forall>i<NUM_LEDS. targetColor s' ! i =
            (if complementary_LED_map ! i = COMPLEMENTARY_FRONT
             then colors ! nat (currentColorIndex s)
             else complementary_colors ! nat (currentColorIndex s)))"
    by simp
next
  assume "\<not> exceedsUpdateDelay (now - lastLEDUpdate s)"
  then show "updateLEDs now s = Some s" by (rule updateLEDs_not_eligible)
qed

text \<open>The three cases at the initial globals: at 100 ms in either mode, and at 5 ms.\<close>

theorem targets_recomputed_on_eligible_ticks_witness:
  "(\<exists>s'. updateLEDs 100 (initState blankEeprom) = Some s' \<and> targetColor s' ! 3 = colors ! 0)
   \<and> (\<exists>s'. updateLEDs 100 complementaryExample = Some s' \<and>
         targetColor s' ! 0 = colors ! 0 \<and> targetColor s' ! 3 = complementary_colors ! 0)
   \<and> updateLEDs 5 (initState blankEeprom) = Some (initState blankEeprom)"
proof -
  have u: "exceedsUpdateDelay (100 - lastLEDUpdate (initState blankEeprom)) \<and>
      currentMode (initState blankEeprom) = MODE_UNIFIED \<and>
      0 \<le> currentColorIndex (initState blankEeprom) \<and> currentColorIndex (initState blankEeprom) \<le> 7 \<and>
      length (targetColor (initState blankEeprom)) = NUM_LEDS"
    by (simp add: initState_def exceedsUpdateDelay_def)
  have c: "exceedsUpdateDelay (100 - lastLEDUpdate complementaryExample) \<and>
      currentMode complementaryExample = MODE_COMPLEMENTARY \<and>
      0 \<le> currentColorIndex complementaryExample \<and> currentColorIndex complementaryExample \<le> 7 \<and>
      length (targetColor complementaryExample) = NUM_LEDS"
    by (simp add: complementaryExample_def initState_def exceedsUpdateDelay_def)
  have n: "\<not> exceedsUpdateDelay (5 - lastLEDUpdate (initState blankEeprom))"
    by (simp add: initState_def exceedsUpdateDelay_def)
  have f: "currentColorIndex (initState blankEeprom) = 0" "currentColorIndex complementaryExample = 0"
    by (simp_all add: complementaryExample_def initState_def)
  have m: "complementary_LED_map ! 0 = COMPLEMENTARY_FRONT" "complementary_LED_map ! 3 \<noteq> COMPLEMENTARY_FRONT"
    by (simp_all add: complementary_LED_map_def COMPLEMENTARY_FRONT_def COMPLEMENTARY_REAR_def)
  from targets_recomputed_on_eligible_ticks [of 100 "initState blankEeprom"] u
  obtain s1 where 1: "updateLEDs 100 (initState blankEeprom) = Some s1"
    "\<forall>i<NUM_LEDS. targetColor s1 ! i = colors ! nat (currentColorIndex (initState blankEeprom))"
    by blast
  from targets_recomputed_on_eligible_ticks [of 100 complementaryExample] c
  obtain s2 where 2: "updateLEDs 100 complementaryExample = Some s2"
    "\<forall>i<NUM_LEDS. targetColor s2 ! i =
            (if complementary_LED_map ! i = COMPLEMENTARY_FRONT
             then colors ! nat (currentColorIndex complementaryExample)
             else complementary_colors ! nat (currentColorIndex complementaryExample))"
    by blast
  from targets_recomputed_on_eligible_ticks [of 5 "initState blankEeprom"] n
  have 3: "updateLEDs 5 (initState blankEeprom) = Some (initState blankEeprom)" by blast
  from 1(2) [rule_format, of 3] 2(2) [rule_format, of 0] 2(2) [rule_format, of 3] 1(1) 2(1) 3
  show ?thesis by (simp add: f m NUM_LEDS_def)
qed

text \<open>
  Claim C7 as stated fails: after a first pass of the loop at 5 ms the mode is Unified and
  the colour index 0, and every target is still black, not the base colour.
\<close>

theorem targets_stale_on_early_tick:
  "map_option currentMode afterEarlyTick = Some MODE_UNIFIED \<and>
   map_option currentColorIndex afterEarlyTick = Some 0 \<and>
   map_option targetColor afterEarlyTick = Some (replicate NUM_LEDS black) \<and>
   colors ! 0 \<noteq> black"
  by (simp add: afterEarlyTick_def setupSketch_def loadState_def initState_def blankEeprom_def
      brightnessAt_def brightnessValues_def Let_def loop_def updateLEDs_def exceedsUpdateDelay_def
      updatePhase_def MODE_UNIFIED_def MODE_RAIN_def checkButtons_def checkButton_def earlyTick_def
      digitalRead_def DEBOUNCE_DELAY_def NUM_LEDS_def upt_rec black_def colors_def)

text \<open>
  Claim C9. On a call of \<^verbatim>\<open>updateLEDs\<close> that passes the frame-rate test, when after the
  switch every \<^verbatim>\<open>actualColor\<close> equals its target and \<^verbatim>\<open>actualBrightness\<close> equals
  \<^verbatim>\<open>targetBrightness\<close>, the variable \<^verbatim>\<open>somethingChanged\<close> stays false and the strip is not
  called: no pixel, no brightness, no \<^verbatim>\<open>show\<close>.
\<close>

theorem settled_frame_no_strip_calls:
  assumes "exceedsUpdateDelay (now - lastLEDUpdate s)" and "setTargets s = Some t"
    and "\<forall>i<NUM_LEDS. actualColor s ! i = t ! i"
    and "actualBrightness s = targetBrightness s"
  shows "fst (graduateBrightness (fold graduateLED [0..<NUM_LEDS] (False, s\<lparr>targetColor := t\<rparr>))) = False
    \<and> (\<exists>s'. updateLEDs now s = Some s' \<and> s' = s\<lparr>targetColor := t, lastLEDUpdate := now\<rparr> \<and>
          stripLog s' = stripLog s \<and> actualColor s' = actualColor s \<and>
          actualBrightness s' = actualBrightness s)"
proof -
  have "fold graduateLED [0..<NUM_LEDS] (False, s\<lparr>targetColor := t\<rparr>) = (False, s\<lparr>targetColor := t\<rparr>)"
    using assms(3) by (intro fold_graduateLED_equal) simp
  moreover have "graduateBrightness (False, s\<lparr>targetColor := t\<rparr>) = (False, s\<lparr>targetColor := t\<rparr>)"
    using assms(4) by (intro graduateBrightness_equal) simp
  ultimately show ?thesis
    using assms(1,2) by (simp add: updateLEDs_def Let_def)
qed

text \<open>The settled example: white everywhere, at the target brightness.\<close>

theorem settled_frame_no_strip_calls_witness:
  "updateLEDs 100 settledExample = Some (settledExample\<lparr>lastLEDUpdate := 100\<rparr>) \<and>
   stripLog (settledExample\<lparr>lastLEDUpdate := 100\<rparr>) = []"
proof -
  have e: "exceedsUpdateDelay (100 - lastLEDUpdate settledExample)"
    by (simp add: settledExample_def initState_def exceedsUpdateDelay_def)
  have t: "setTargets settledExample = Some (replicate NUM_LEDS (colors ! 0))"
    by (simp add: settledExample_def initState_def setTargets_def unifiedLED_def colorsAt_def
        colors_def MODE_UNIFIED_def NUM_LEDS_def upt_rec eval_nat_numeral)
  have a: "\<forall>i<NUM_LEDS. actualColor settledExample ! i = replicate NUM_LEDS (colors ! 0) ! i"
    by (simp add: settledExample_def initState_def)
  have br: "actualBrightness settledExample = targetBrightness settledExample"
    by (simp add: settledExample_def initState_def)
  have tc: "settledExample\<lparr>targetColor := replicate NUM_LEDS (colors ! 0)\<rparr> = settledExample"
    by (simp add: settledExample_def initState_def)
  have l: "stripLog settledExample = []"
    by (simp add: settledExample_def initState_def)
  from settled_frame_no_strip_calls [OF e t a br] tc l show ?thesis
    by auto
qed

section \<open>Convergence of the graduation\<close>

lemma channelGap_step:
  "channelGap (word_of_int (stepToward (uint a) (uint t))) t = max 0 (channelGap a t - 1)"
  unfolding channelGap_def stepToward_byte by (rule stepToward_distance)

lemma channelGap_graduateRGB:
  "channelGap (r (graduateRGB a t)) (r t) = max 0 (channelGap (r a) (r t) - 1)"
  "channelGap (g (graduateRGB a t)) (g t) = max 0 (channelGap (g a) (g t) - 1)"
  "channelGap (b (graduateRGB a t)) (b t) = max 0 (channelGap (b a) (b t) - 1)"
  unfolding channelGap_def graduateRGB_channels by (rule stepToward_distance)+

lemma channelGap_zero: "channelGap a t = 0 \<longleftrightarrow> a = t"
  by (auto simp: channelGap_def word_uint_eq_iff)

lemma channelGap_range: "0 \<le> channelGap a t \<and> channelGap a t \<le> 255"
  using uint_byte_less [of a] uint_byte_less [of t] uint_ge_0 [of a] uint_ge_0 [of t]
  unfolding channelGap_def by linarith

lemma RGB_eqI: "r x = r y \<Longrightarrow> g x = g y \<Longrightarrow> b x = b y \<Longrightarrow> x = (y :: RGB)"
  by (cases x, cases y) simp

text \<open>One frame: what it leaves, and that its targets are stable from then on.\<close>

lemma frame_step:
  assumes e: "exceedsUpdateDelay (now - lastLEDUpdate u)" and u2: "updateLEDs now u = Some u2"
    and lt: "length (targetColor u) = NUM_LEDS" and la: "length (actualColor u) = NUM_LEDS"
  shows "setTargets u = Some (targetColor u2)"
    and "setTargets u2 = Some (targetColor u2)"
    and "length (targetColor u2) = NUM_LEDS" and "length (actualColor u2) = NUM_LEDS"
    and "lastLEDUpdate u2 = now" and "targetBrightness u2 = targetBrightness u"
    and "currentColorIndex u2 = currentColorIndex u"
    and "\<forall>i<NUM_LEDS. actualColor u2 ! i = graduateRGB (actualColor u ! i) (targetColor u2 ! i)"
    and "actualBrightness u2 =
           word_of_int (stepToward (uint (actualBrightness u)) (uint (targetBrightness u)))"
proof -
  from updateLEDs_eligible [OF e u2] obtain t L where t: "setTargets u = Some t"
    and eq: "u2 = u\<lparr>targetColor := t,
                  actualColor := fold (\<lambda>i a. a[i := graduateRGB (a ! i) (t ! i)]) [0..<NUM_LEDS]
                                   (actualColor u),
                  actualBrightness :=
                    word_of_int (stepToward (uint (actualBrightness u)) (uint (targetBrightness u))),
                  stripLog := stripLog u @ L,
                  lastLEDUpdate := now\<rparr>"
    by blast
  have tc: "targetColor u2 = t" by (simp add: eq)
  show "setTargets u = Some (targetColor u2)" using t tc by simp
  have "setTargets u2 = Some t"
    by (rule setTargets_stable [OF t lt]) (simp_all add: eq)
  then show "setTargets u2 = Some (targetColor u2)" using tc by simp
  show "length (targetColor u2) = NUM_LEDS"
    using setTargets_length [OF t] lt tc by simp
  show "length (actualColor u2) = NUM_LEDS"
    using la fold_update_length [of "\<lambda>i x. graduateRGB x (t ! i)" "[0..<NUM_LEDS]" "actualColor u"]
    by (simp add: eq)
  show "lastLEDUpdate u2 = now" "targetBrightness u2 = targetBrightness u"
    "currentColorIndex u2 = currentColorIndex u"
    by (simp_all add: eq)
  show "\<forall>i<NUM_LEDS. actualColor u2 ! i = graduateRGB (actualColor u ! i) (targetColor u2 ! i)"
    using la fold_update_nth [of "[0..<NUM_LEDS]" "actualColor u" "\<lambda>i x. graduateRGB x (t ! i)"]
    by (simp add: eq)
  show "actualBrightness u2 =
           word_of_int (stepToward (uint (actualBrightness u)) (uint (targetBrightness u)))"
    by (simp add: eq)
qed

lemma max_gap_compose: "max 0 (max 0 (d - 1) - int n) = max (0::int) (d - (1 + int n))"
  by auto

lemma run_settled:
  assumes "runUpdateLEDs ts u = Some s'" "eligibleTimes (lastLEDUpdate u) ts"
    "setTargets u = Some (targetColor u)"
    "length (targetColor u) = NUM_LEDS" "length (actualColor u) = NUM_LEDS"
  shows "targetColor s' = targetColor u \<and> targetBrightness s' = targetBrightness u \<and>
    length (actualColor s') = NUM_LEDS \<and>
    (\<forall>i<NUM_LEDS.
       channelGap (r (actualColor s' ! i)) (r (targetColor u ! i)) =
         max 0 (channelGap (r (actualColor u ! i)) (r (targetColor u ! i)) - int (length ts)) \<and>
       channelGap (g (actualColor s' ! i)) (g (targetColor u ! i)) =
         max 0 (channelGap (g (actualColor u ! i)) (g (targetColor u ! i)) - int (length ts)) \<and>
       channelGap (b (actualColor s' ! i)) (b (targetColor u ! i)) =
         max 0 (channelGap (b (actualColor u ! i)) (b (targetColor u ! i)) - int (length ts))) \<and>
    channelGap (actualBrightness s') (targetBrightness u) =
      max 0 (channelGap (actualBrightness u) (targetBrightness u) - int (length ts))"
  using assms
proof (induction ts arbitrary: u)
  case Nil
  then show ?case using channelGap_range by (simp add: max_def)
next
  case (Cons t ts)
  from Cons.prems(1) obtain u2 where u2: "updateLEDs t u = Some u2"
    and run: "runUpdateLEDs ts u2 = Some s'"
    by (auto split: option.splits)
  from Cons.prems(2) have e: "exceedsUpdateDelay (t - lastLEDUpdate u)"
    and es: "eligibleTimes t ts" by simp_all
  note f = frame_step [OF e u2 Cons.prems(4,5)]
  from f(1) Cons.prems(3) have tc: "targetColor u2 = targetColor u" by simp
  have ih: "targetColor s' = targetColor u2 \<and> targetBrightness s' = targetBrightness u2 \<and>
    length (actualColor s') = NUM_LEDS \<and>
    (\<forall>i<NUM_LEDS.
       channelGap (r (actualColor s' ! i)) (r (targetColor u2 ! i)) =
         max 0 (channelGap (r (actualColor u2 ! i)) (r (targetColor u2 ! i)) - int (length ts)) \<and>
       channelGap (g (actualColor s' ! i)) (g (targetColor u2 ! i)) =
         max 0 (channelGap (g (actualColor u2 ! i)) (g (targetColor u2 ! i)) - int (length ts)) \<and>
       channelGap (b (actualColor s' ! i)) (b (targetColor u2 ! i)) =
         max 0 (channelGap (b (actualColor u2 ! i)) (b (targetColor u2 ! i)) - int (length ts))) \<and>
    channelGap (actualBrightness s') (targetBrightness u2) =
      max 0 (channelGap (actualBrightness u2) (targetBrightness u2) - int (length ts))"
    using es f(5) by (intro Cons.IH [OF run _ f(2) f(3) f(4)]) simp
  have a2: "actualColor u2 ! i = graduateRGB (actualColor u ! i) (targetColor u ! i)"
    if "i < NUM_LEDS" for i
    using f(8) that tc by simp
  have gaps: "channelGap (r (actualColor u2 ! i)) (r (targetColor u ! i)) =
               max 0 (channelGap (r (actualColor u ! i)) (r (targetColor u ! i)) - 1)"
    "channelGap (g (actualColor u2 ! i)) (g (targetColor u ! i)) =
               max 0 (channelGap (g (actualColor u ! i)) (g (targetColor u ! i)) - 1)"
    "channelGap (b (actualColor u2 ! i)) (b (targetColor u ! i)) =
               max 0 (channelGap (b (actualColor u ! i)) (b (targetColor u ! i)) - 1)"
    if "i < NUM_LEDS" for i
    using that by (simp_all only: a2 channelGap_graduateRGB)
  have bgap: "channelGap (actualBrightness u2) (targetBrightness u) =
               max 0 (channelGap (actualBrightness u) (targetBrightness u) - 1)"
    by (simp only: f(9) channelGap_step)
  show ?case
    using ih by (simp add: tc f(6) gaps bgap max_gap_compose)
qed

lemma run_total:
  "0 \<le> currentColorIndex s \<Longrightarrow> currentColorIndex s \<le> 7 \<Longrightarrow> runUpdateLEDs ts s \<noteq> None"
proof (induction ts arbitrary: s)
  case Nil
  show ?case by simp
next
  case (Cons t ts)
  from updateLEDs_total [OF Cons.prems, of t] obtain u where u: "updateLEDs t s = Some u" by auto
  have "currentColorIndex u = currentColorIndex s"
  proof (cases "exceedsUpdateDelay (t - lastLEDUpdate s)")
    case True
    from updateLEDs_eligible [OF True u] show ?thesis by auto
  next
    case False
    from updateLEDs_not_eligible [OF False] u show ?thesis by simp
  qed
  with Cons u show ?case by simp
qed

lemma eligibleTimes_frameTimes_aux:
  "eligibleTimes (10 * of_nat m) (map (\<lambda>k. 10 * of_nat (Suc k)) [m..<m + n])"
proof (induction n arbitrary: m)
  case 0
  show ?case by simp
next
  case (Suc n)
  have "[m..<m + Suc n] = m # [Suc m..<Suc m + n]"
    by (simp add: upt_rec)
  moreover have "10 * of_nat (Suc m) - 10 * of_nat m = (10::ulong)"
    by (simp add: algebra_simps)
  then have "exceedsUpdateDelay (10 * of_nat (Suc m) - 10 * of_nat m)"
    by (simp only: exceedsUpdateDelay_def) simp
  ultimately show ?case using Suc [of "Suc m"] by simp
qed

lemma eligibleTimes_frameTimes: "eligibleTimes 0 (frameTimes n)"
  using eligibleTimes_frameTimes_aux [of 0 n] by (simp add: frameTimes_def)


lemma run_gaps:
  assumes run: "runUpdateLEDs ts s = Some s'" and el: "eligibleTimes (lastLEDUpdate s) ts"
    and lt: "length (targetColor s) = NUM_LEDS" and la: "length (actualColor s) = NUM_LEDS"
  shows "length (targetColor s') = NUM_LEDS \<and> length (actualColor s') = NUM_LEDS \<and>
    targetBrightness s' = targetBrightness s \<and>
    (\<forall>i<NUM_LEDS.
       channelGap (r (actualColor s' ! i)) (r (targetColor s' ! i)) =
         max 0 (channelGap (r (actualColor s ! i)) (r (targetColor s' ! i)) - int (length ts)) \<and>
       channelGap (g (actualColor s' ! i)) (g (targetColor s' ! i)) =
         max 0 (channelGap (g (actualColor s ! i)) (g (targetColor s' ! i)) - int (length ts)) \<and>
       channelGap (b (actualColor s' ! i)) (b (targetColor s' ! i)) =
         max 0 (channelGap (b (actualColor s ! i)) (b (targetColor s' ! i)) - int (length ts))) \<and>
    channelGap (actualBrightness s') (targetBrightness s') =
      max 0 (channelGap (actualBrightness s) (targetBrightness s') - int (length ts))"
proof (cases ts)
  case Nil
  with run lt la show ?thesis using channelGap_range by (simp add: max_def)
next
  case (Cons t ts')
  from run Cons obtain u2 where u2: "updateLEDs t s = Some u2"
    and run': "runUpdateLEDs ts' u2 = Some s'"
    by (auto split: option.splits)
  from el Cons have e: "exceedsUpdateDelay (t - lastLEDUpdate s)"
    and es: "eligibleTimes t ts'" by simp_all
  note f = frame_step [OF e u2 lt la]
  have rs: "targetColor s' = targetColor u2 \<and> targetBrightness s' = targetBrightness u2 \<and>
    length (actualColor s') = NUM_LEDS \<and>
    (\<forall>i<NUM_LEDS.
       channelGap (r (actualColor s' ! i)) (r (targetColor u2 ! i)) =
         max 0 (channelGap (r (actualColor u2 ! i)) (r (targetColor u2 ! i)) - int (length ts')) \<and>
       channelGap (g (actualColor s' ! i)) (g (targetColor u2 ! i)) =
         max 0 (channelGap (g (actualColor u2 ! i)) (g (targetColor u2 ! i)) - int (length ts')) \<and>
       channelGap (b (actualColor s' ! i)) (b (targetColor u2 ! i)) =
         max 0 (channelGap (b (actualColor u2 ! i)) (b (targetColor u2 ! i)) - int (length ts'))) \<and>
    channelGap (actualBrightness s') (targetBrightness u2) =
      max 0 (channelGap (actualBrightness u2) (targetBrightness u2) - int (length ts'))"
    using es f(5) by (intro run_settled [OF run' _ f(2) f(3) f(4)]) simp
  have gaps: "channelGap (r (actualColor u2 ! i)) (r (targetColor u2 ! i)) =
               max 0 (channelGap (r (actualColor s ! i)) (r (targetColor u2 ! i)) - 1)"
    "channelGap (g (actualColor u2 ! i)) (g (targetColor u2 ! i)) =
               max 0 (channelGap (g (actualColor s ! i)) (g (targetColor u2 ! i)) - 1)"
    "channelGap (b (actualColor u2 ! i)) (b (targetColor u2 ! i)) =
               max 0 (channelGap (b (actualColor s ! i)) (b (targetColor u2 ! i)) - 1)"
    if "i < NUM_LEDS" for i
    using f(8) that by (simp_all only: channelGap_graduateRGB)
  have bgap: "channelGap (actualBrightness u2) (targetBrightness s) =
               max 0 (channelGap (actualBrightness s) (targetBrightness s) - 1)"
    by (simp only: f(9) channelGap_step)
  show ?thesis
    using rs f(3) by (simp add: Cons f(6) gaps bgap max_gap_compose)
qed

lemma run_first_target:
  assumes run: "runUpdateLEDs ts s = Some s'" and el: "eligibleTimes (lastLEDUpdate s) ts"
    and lt: "length (targetColor s) = NUM_LEDS" and la: "length (actualColor s) = NUM_LEDS"
    and ne: "ts \<noteq> []"
  shows "setTargets s = Some (targetColor s')"
proof -
  from ne obtain t ts' where ts: "ts = t # ts'" by (cases ts) auto
  from run ts obtain u2 where u2: "updateLEDs t s = Some u2"
    and run': "runUpdateLEDs ts' u2 = Some s'"
    by (auto split: option.splits)
  from el ts have e: "exceedsUpdateDelay (t - lastLEDUpdate s)"
    and es: "eligibleTimes t ts'" by simp_all
  note f = frame_step [OF e u2 lt la]
  have "targetColor s' = targetColor u2"
    using es f(5) run_settled [OF run' _ f(2) f(3) f(4)] by simp
  with f(1) show ?thesis by simp
qed

text \<open>
  Claim C3. A call of \<^verbatim>\<open>updateLEDs\<close> that passes the frame-rate test sets the targets to
  what the switch computes from the state before the call, leaves \<^verbatim>\<open>targetBrightness\<close> as
  it was, and moves every channel of every position, and the brightness, one unit towards
  that target and never past it. Over successive such calls the targets stay what the
  switch computed at the first call, and the distance of every channel and of the brightness
  from the target is the initial distance minus the number of frames, or 0 once that is
  reached; so after 255 frames every \<^verbatim>\<open>actualColor\<close> equals its target and
  \<^verbatim>\<open>actualBrightness\<close> equals the \<^verbatim>\<open>targetBrightness\<close> of the start. With the colour index
  in 0..7 the switch and the calls return.
\<close>

theorem graduation_converges:
  "(exceedsUpdateDelay (now - lastLEDUpdate s) \<and> length (targetColor s) = NUM_LEDS \<and>
    length (actualColor s) = NUM_LEDS \<and> updateLEDs now s = Some s1 \<longrightarrow>
      setTargets s = Some (targetColor s1) \<and>
      targetBrightness s1 = targetBrightness s \<and>
      lastLEDUpdate s1 = now \<and>
      length (targetColor s1) = NUM_LEDS \<and> length (actualColor s1) = NUM_LEDS \<and>
      (\<forall>i<NUM_LEDS.
         targetColor s1 ! i = modeTarget s i (targetColor s ! i) \<and>
         uint (r (actualColor s1 ! i)) =
           stepToward (uint (r (actualColor s ! i))) (uint (r (targetColor s1 ! i))) \<and>
         uint (g (actualColor s1 ! i)) =
           stepToward (uint (g (actualColor s ! i))) (uint (g (targetColor s1 ! i))) \<and>
         uint (b (actualColor s1 ! i)) =
           stepToward (uint (b (actualColor s ! i))) (uint (b (targetColor s1 ! i)))) \<and>
      uint (actualBrightness s1) =
        stepToward (uint (actualBrightness s)) (uint (targetBrightness s)))
   \<and> (eligibleTimes (lastLEDUpdate s) ts \<and> length (targetColor s) = NUM_LEDS \<and>
    length (actualColor s) = NUM_LEDS \<and> runUpdateLEDs ts s = Some s' \<and>
    setTargets s = Some T \<longrightarrow>
      targetBrightness s' = targetBrightness s \<and>
      (ts \<noteq> [] \<longrightarrow> targetColor s' = T) \<and>
      length (actualColor s') = NUM_LEDS \<and>
      (\<forall>i<NUM_LEDS.
         channelGap (r (actualColor s' ! i)) (r (T ! i)) =
           max 0 (channelGap (r (actualColor s ! i)) (r (T ! i)) - int (length ts)) \<and>
         channelGap (g (actualColor s' ! i)) (g (T ! i)) =
           max 0 (channelGap (g (actualColor s ! i)) (g (T ! i)) - int (length ts)) \<and>
         channelGap (b (actualColor s' ! i)) (b (T ! i)) =
           max 0 (channelGap (b (actualColor s ! i)) (b (T ! i)) - int (length ts))) \<and>
      channelGap (actualBrightness s') (targetBrightness s) =
        max 0 (channelGap (actualBrightness s) (targetBrightness s) - int (length ts)) \<and>
      (255 \<le> length ts \<longrightarrow>
         actualColor s' = T \<and> targetColor s' = T \<and>
         actualBrightness s' = targetBrightness s))
   \<and> (0 \<le> currentColorIndex s \<and> currentColorIndex s \<le> 7 \<longrightarrow>
        setTargets s \<noteq> None \<and> runUpdateLEDs ts s \<noteq> None)"
proof (intro conjI)
  show "exceedsUpdateDelay (now - lastLEDUpdate s) \<and> length (targetColor s) = NUM_LEDS \<and>
    length (actualColor s) = NUM_LEDS \<and> updateLEDs now s = Some s1 \<longrightarrow>
      setTargets s = Some (targetColor s1) \<and>
      targetBrightness s1 = targetBrightness s \<and>
      lastLEDUpdate s1 = now \<and>
      length (targetColor s1) = NUM_LEDS \<and> length (actualColor s1) = NUM_LEDS \<and>
      (\<forall>i<NUM_LEDS.
         targetColor s1 ! i = modeTarget s i (targetColor s ! i) \<and>
         uint (r (actualColor s1 ! i)) =
           stepToward (uint (r (actualColor s ! i))) (uint (r (targetColor s1 ! i))) \<and>
         uint (g (actualColor s1 ! i)) =
           stepToward (uint (g (actualColor s ! i))) (uint (g (targetColor s1 ! i))) \<and>
         uint (b (actualColor s1 ! i)) =
           stepToward (uint (b (actualColor s ! i))) (uint (b (targetColor s1 ! i)))) \<and>
      uint (actualBrightness s1) =
        stepToward (uint (actualBrightness s)) (uint (targetBrightness s))"
  proof
    assume h: "exceedsUpdateDelay (now - lastLEDUpdate s) \<and> length (targetColor s) = NUM_LEDS \<and>
      length (actualColor s) = NUM_LEDS \<and> updateLEDs now s = Some s1"
    then have e: "exceedsUpdateDelay (now - lastLEDUpdate s)" and u: "updateLEDs now s = Some s1"
      and lt: "length (targetColor s) = NUM_LEDS" and la: "length (actualColor s) = NUM_LEDS"
      by simp_all
    note f = frame_step [OF e u lt la]
    show "setTargets s = Some (targetColor s1) \<and>
      targetBrightness s1 = targetBrightness s \<and>
      lastLEDUpdate s1 = now \<and>
      length (targetColor s1) = NUM_LEDS \<and> length (actualColor s1) = NUM_LEDS \<and>
      (\<forall>i<NUM_LEDS.
         targetColor s1 ! i = modeTarget s i (targetColor s ! i) \<and>
         uint (r (actualColor s1 ! i)) =
           stepToward (uint (r (actualColor s ! i))) (uint (r (targetColor s1 ! i))) \<and>
         uint (g (actualColor s1 ! i)) =
           stepToward (uint (g (actualColor s ! i))) (uint (g (targetColor s1 ! i))) \<and>
         uint (b (actualColor s1 ! i)) =
           stepToward (uint (b (actualColor s ! i))) (uint (b (targetColor s1 ! i)))) \<and>
      uint (actualBrightness s1) =
        stepToward (uint (actualBrightness s)) (uint (targetBrightness s))"
    proof (intro conjI allI impI)
      show "setTargets s = Some (targetColor s1)" by (rule f(1))
      show "targetBrightness s1 = targetBrightness s" by (rule f(6))
      show "lastLEDUpdate s1 = now" by (rule f(5))
      show "length (targetColor s1) = NUM_LEDS" by (rule f(3))
      show "length (actualColor s1) = NUM_LEDS" by (rule f(4))
    next
      fix i assume i: "i < NUM_LEDS"
      show "targetColor s1 ! i = modeTarget s i (targetColor s ! i)"
        by (rule setTargets_nth [OF f(1) lt i])
      from f(8) i have a: "actualColor s1 ! i = graduateRGB (actualColor s ! i) (targetColor s1 ! i)"
        by simp
      show "uint (r (actualColor s1 ! i)) =
           stepToward (uint (r (actualColor s ! i))) (uint (r (targetColor s1 ! i)))"
        "uint (g (actualColor s1 ! i)) =
           stepToward (uint (g (actualColor s ! i))) (uint (g (targetColor s1 ! i)))"
        "uint (b (actualColor s1 ! i)) =
           stepToward (uint (b (actualColor s ! i))) (uint (b (targetColor s1 ! i)))"
        by (simp_all only: a graduateRGB_channels)
    next
      show "uint (actualBrightness s1) =
        stepToward (uint (actualBrightness s)) (uint (targetBrightness s))"
        by (simp only: f(9) stepToward_byte)
    qed
  qed
next
  show "eligibleTimes (lastLEDUpdate s) ts \<and> length (targetColor s) = NUM_LEDS \<and>
    length (actualColor s) = NUM_LEDS \<and> runUpdateLEDs ts s = Some s' \<and>
    setTargets s = Some T \<longrightarrow>
      targetBrightness s' = targetBrightness s \<and>
      (ts \<noteq> [] \<longrightarrow> targetColor s' = T) \<and>
      length (actualColor s') = NUM_LEDS \<and>
      (\<forall>i<NUM_LEDS.
         channelGap (r (actualColor s' ! i)) (r (T ! i)) =
           max 0 (channelGap (r (actualColor s ! i)) (r (T ! i)) - int (length ts)) \<and>
         channelGap (g (actualColor s' ! i)) (g (T ! i)) =
           max 0 (channelGap (g (actualColor s ! i)) (g (T ! i)) - int (length ts)) \<and>
         channelGap (b (actualColor s' ! i)) (b (T ! i)) =
           max 0 (channelGap (b (actualColor s ! i)) (b (T ! i)) - int (length ts))) \<and>
      channelGap (actualBrightness s') (targetBrightness s) =
        max 0 (channelGap (actualBrightness s) (targetBrightness s) - int (length ts)) \<and>
      (255 \<le> length ts \<longrightarrow>
         actualColor s' = T \<and> targetColor s' = T \<and>
         actualBrightness s' = targetBrightness s)"
  proof
    assume h: "eligibleTimes (lastLEDUpdate s) ts \<and> length (targetColor s) = NUM_LEDS \<and>
      length (actualColor s) = NUM_LEDS \<and> runUpdateLEDs ts s = Some s' \<and>
      setTargets s = Some T"
    then have el: "eligibleTimes (lastLEDUpdate s) ts" and run: "runUpdateLEDs ts s = Some s'"
      and lt: "length (targetColor s) = NUM_LEDS" and la: "length (actualColor s) = NUM_LEDS"
      and T: "setTargets s = Some T"
      by simp_all
    have g: "length (targetColor s') = NUM_LEDS \<and> length (actualColor s') = NUM_LEDS \<and>
      targetBrightness s' = targetBrightness s \<and>
      (\<forall>i<NUM_LEDS.
         channelGap (r (actualColor s' ! i)) (r (targetColor s' ! i)) =
           max 0 (channelGap (r (actualColor s ! i)) (r (targetColor s' ! i)) - int (length ts)) \<and>
         channelGap (g (actualColor s' ! i)) (g (targetColor s' ! i)) =
           max 0 (channelGap (g (actualColor s ! i)) (g (targetColor s' ! i)) - int (length ts)) \<and>
         channelGap (b (actualColor s' ! i)) (b (targetColor s' ! i)) =
           max 0 (channelGap (b (actualColor s ! i)) (b (targetColor s' ! i)) - int (length ts))) \<and>
      channelGap (actualBrightness s') (targetBrightness s') =
        max 0 (channelGap (actualBrightness s) (targetBrightness s') - int (length ts))"
      by (rule run_gaps [OF run el lt la])
    then have tb: "targetBrightness s' = targetBrightness s"
      and las: "length (actualColor s') = NUM_LEDS" by simp_all
    have tc: "targetColor s' = T" if "ts \<noteq> []"
      using run_first_target [OF run el lt la that] T by simp
    have lT: "length T = NUM_LEDS" using setTargets_length [OF T] lt by simp
    have gaps: "channelGap (r (actualColor s' ! i)) (r (T ! i)) =
           max 0 (channelGap (r (actualColor s ! i)) (r (T ! i)) - int (length ts)) \<and>
         channelGap (g (actualColor s' ! i)) (g (T ! i)) =
           max 0 (channelGap (g (actualColor s ! i)) (g (T ! i)) - int (length ts)) \<and>
         channelGap (b (actualColor s' ! i)) (b (T ! i)) =
           max 0 (channelGap (b (actualColor s ! i)) (b (T ! i)) - int (length ts))"
      if i: "i < NUM_LEDS" for i
    proof (cases "ts = []")
      case True
      with run have "s' = s" by simp
      with True show ?thesis using channelGap_range by (simp add: max_def)
    next
      case False
      from g i tc [OF False] show ?thesis by simp
    qed
    from g have "channelGap (actualBrightness s') (targetBrightness s') =
        max 0 (channelGap (actualBrightness s) (targetBrightness s') - int (length ts))"
      by blast
    then have bgap: "channelGap (actualBrightness s') (targetBrightness s) =
        max 0 (channelGap (actualBrightness s) (targetBrightness s) - int (length ts))"
      unfolding tb .
    have conv: "actualColor s' = T \<and> targetColor s' = T \<and>
         actualBrightness s' = targetBrightness s"
      if long: "255 \<le> length ts"
    proof (intro conjI)
      have z: "max 0 (channelGap x y - int (length ts)) = 0" for x y
        using channelGap_range [of x y] long by simp
      show "actualColor s' = T"
      proof (rule nth_equalityI)
        show "length (actualColor s') = length T" using las lT by simp
      next
        fix i assume "i < length (actualColor s')"
        then have i: "i < NUM_LEDS" using las by simp
        from gaps [OF i] have "channelGap (r (actualColor s' ! i)) (r (T ! i)) = 0"
          "channelGap (g (actualColor s' ! i)) (g (T ! i)) = 0"
          "channelGap (b (actualColor s' ! i)) (b (T ! i)) = 0"
          by (simp_all only: z)
        then show "actualColor s' ! i = T ! i"
          by (intro RGB_eqI) (simp_all add: channelGap_zero)
      qed
      from long have "ts \<noteq> []" by auto
      then show "targetColor s' = T" by (rule tc)
      from bgap have "channelGap (actualBrightness s') (targetBrightness s) = 0"
        by (simp only: z)
      then show "actualBrightness s' = targetBrightness s" by (simp add: channelGap_zero)
    qed
    from tb tc las gaps bgap conv show "targetBrightness s' = targetBrightness s \<and>
      (ts \<noteq> [] \<longrightarrow> targetColor s' = T) \<and>
      length (actualColor s') = NUM_LEDS \<and>
      (\<forall>i<NUM_LEDS.
         channelGap (r (actualColor s' ! i)) (r (T ! i)) =
           max 0 (channelGap (r (actualColor s ! i)) (r (T ! i)) - int (length ts)) \<and>
         channelGap (g (actualColor s' ! i)) (g (T ! i)) =
           max 0 (channelGap (g (actualColor s ! i)) (g (T ! i)) - int (length ts)) \<and>
         channelGap (b (actualColor s' ! i)) (b (T ! i)) =
           max 0 (channelGap (b (actualColor s ! i)) (b (T ! i)) - int (length ts))) \<and>
      channelGap (actualBrightness s') (targetBrightness s) =
        max 0 (channelGap (actualBrightness s) (targetBrightness s) - int (length ts)) \<and>
      (255 \<le> length ts \<longrightarrow>
         actualColor s' = T \<and> targetColor s' = T \<and>
         actualBrightness s' = targetBrightness s)"
      by blast
  qed
next
  show "0 \<le> currentColorIndex s \<and> currentColorIndex s \<le> 7 \<longrightarrow>
        setTargets s \<noteq> None \<and> runUpdateLEDs ts s \<noteq> None"
    using run_total [of s ts] setTargets_total [of s] by blast
qed

text \<open>
  The dark example: one frame at 100 ms moves the brightness and the red of position 0 from
  0 to 1; 255 frames, 10 ms apart, reach white at the brightness 180.
\<close>

theorem graduation_converges_witness:
  "(\<exists>s1. updateLEDs 100 darkExample = Some s1 \<and>
      targetColor s1 ! 0 = colors ! 0 \<and> targetBrightness s1 = 180 \<and>
      uint (r (actualColor s1 ! 0)) = 1 \<and> uint (actualBrightness s1) = 1)
   \<and> (\<exists>s'. runUpdateLEDs (frameTimes 255) darkExample = Some s' \<and>
      actualColor s' = replicate NUM_LEDS (colors ! 0) \<and>
      targetColor s' = replicate NUM_LEDS (colors ! 0) \<and>
      actualBrightness s' = 180 \<and> targetBrightness s' = 180)"
proof -
  have i: "0 \<le> currentColorIndex darkExample \<and> currentColorIndex darkExample \<le> 7"
    by (simp add: darkExample_def initState_def)
  have l: "length (targetColor darkExample) = NUM_LEDS"
    "length (actualColor darkExample) = NUM_LEDS"
    by (simp_all add: darkExample_def initState_def)
  have e1: "exceedsUpdateDelay (100 - lastLEDUpdate darkExample)"
    by (simp add: darkExample_def initState_def exceedsUpdateDelay_def)
  have e: "eligibleTimes (lastLEDUpdate darkExample) (frameTimes 255)"
    using eligibleTimes_frameTimes [of 255] by (simp add: darkExample_def initState_def)
  have n: "255 \<le> length (frameTimes 255)" "frameTimes 255 \<noteq> []"
    by (auto simp: frameTimes_def)
  have T: "setTargets darkExample = Some (replicate NUM_LEDS (colors ! 0))"
    by (simp add: darkExample_def initState_def setTargets_def unifiedLED_def colorsAt_def
        colors_def MODE_UNIFIED_def NUM_LEDS_def upt_rec eval_nat_numeral)
  have f: "targetBrightness darkExample = 180" "actualBrightness darkExample = 0"
    "actualColor darkExample ! 0 = \<lparr>r = 0, g = 0, b = 0\<rparr>"
    by (simp_all add: darkExample_def initState_def brightnessValues_def NUM_LEDS_def)
  have w: "r (colors ! 0) = 255" by (simp add: colors_def)
  from graduation_converges [of 100 darkExample _ "[100]"] i
  have "runUpdateLEDs [100] darkExample \<noteq> None" by blast
  then obtain s1 where s1: "updateLEDs 100 darkExample = Some s1"
    by (cases "updateLEDs 100 darkExample") simp_all
  from graduation_converges [of 100 darkExample s1] e1 l s1
  have p1: "setTargets darkExample = Some (targetColor s1)"
    "targetBrightness s1 = targetBrightness darkExample"
    "\<forall>i<NUM_LEDS. uint (r (actualColor s1 ! i)) =
           stepToward (uint (r (actualColor darkExample ! i))) (uint (r (targetColor s1 ! i)))"
    "uint (actualBrightness s1) =
        stepToward (uint (actualBrightness darkExample)) (uint (targetBrightness darkExample))"
    by blast+
  from p1(1) T have t1: "targetColor s1 = replicate NUM_LEDS (colors ! 0)" by simp
  have first: "targetColor s1 ! 0 = colors ! 0 \<and> targetBrightness s1 = 180 \<and>
      uint (r (actualColor s1 ! 0)) = 1 \<and> uint (actualBrightness s1) = 1"
    using p1(2) p1(3) [rule_format, of 0] p1(4)
    by (simp add: t1 f w NUM_LEDS_def stepToward_def)
  from graduation_converges [of _ darkExample _ "frameTimes 255"] i
  obtain s' where s': "runUpdateLEDs (frameTimes 255) darkExample = Some s'" by blast
  from graduation_converges [of _ darkExample _ "frameTimes 255" s' "replicate NUM_LEDS (colors ! 0)"]
    e l s' T n
  have "targetBrightness s' = targetBrightness darkExample \<and>
    actualColor s' = replicate NUM_LEDS (colors ! 0) \<and>
    targetColor s' = replicate NUM_LEDS (colors ! 0) \<and>
    actualBrightness s' = targetBrightness darkExample"
    by blast
  with s' first s1 show ?thesis by (simp add: f)
qed

section \<open>The selection stays in range\<close>

lemma saveState_button_fields [simp]:
  "btnState (saveState s) = btnState s"
  "lastBtnState (saveState s) = lastBtnState s"
  "btnPressHandled (saveState s) = btnPressHandled s"
  "lastBtnDebounceTime (saveState s) = lastBtnDebounceTime s"
  "btnDownStart (saveState s) = btnDownStart s"
  by (simp_all add: saveState_def Let_def)

lemma cycleColor_frame [simp]:
  "btnState (cycleColor s) = btnState s"
  "lastBtnState (cycleColor s) = lastBtnState s"
  "btnPressHandled (cycleColor s) = btnPressHandled s"
  "lastBtnDebounceTime (cycleColor s) = lastBtnDebounceTime s"
  "btnDownStart (cycleColor s) = btnDownStart s"
  "currentMode (cycleColor s) = currentMode s"
  "inputBrightnessLevel (cycleColor s) = inputBrightnessLevel s"
  "actionLog (cycleColor s) = actionLog s @ [CycleColor]"
  by (simp_all add: cycleColor_def Let_def)

lemma cycleMode_frame [simp]:
  "btnState (cycleMode s) = btnState s"
  "lastBtnState (cycleMode s) = lastBtnState s"
  "btnPressHandled (cycleMode s) = btnPressHandled s"
  "lastBtnDebounceTime (cycleMode s) = lastBtnDebounceTime s"
  "btnDownStart (cycleMode s) = btnDownStart s"
  "currentColorIndex (cycleMode s) = currentColorIndex s"
  "inputBrightnessLevel (cycleMode s) = inputBrightnessLevel s"
  "actionLog (cycleMode s) = actionLog s @ [CycleMode]"
  by (simp_all add: cycleMode_def Let_def)

lemma incBrightness_frame [simp]:
  "btnState (incBrightness s) = btnState s"
  "lastBtnState (incBrightness s) = lastBtnState s"
  "btnPressHandled (incBrightness s) = btnPressHandled s"
  "lastBtnDebounceTime (incBrightness s) = lastBtnDebounceTime s"
  "btnDownStart (incBrightness s) = btnDownStart s"
  "currentColorIndex (incBrightness s) = currentColorIndex s"
  "currentMode (incBrightness s) = currentMode s"
  "actionLog (incBrightness s) = actionLog s @ [IncreaseBrightness]"
  by (simp_all add: incBrightness_def Let_def)

lemma cycleColor_selection: "selectionInRange s \<Longrightarrow> selectionInRange (cycleColor s)"
  using cycleColor_mod [of s] by (auto simp: selectionInRange_def)

lemma cycleMode_selection: "selectionInRange s \<Longrightarrow> selectionInRange (cycleMode s)"
  using cycleMode_unat [of s] by (auto simp: selectionInRange_def)

lemma incBrightness_selection: "selectionInRange s \<Longrightarrow> selectionInRange (incBrightness s)"
  using incBrightness_unat [of s] by (auto simp: selectionInRange_def)

lemma selectionInRange_button_updates [simp]:
  "selectionInRange (s\<lparr>btnState := x1\<rparr>) = selectionInRange s"
  "selectionInRange (s\<lparr>lastBtnState := x1\<rparr>) = selectionInRange s"
  "selectionInRange (s\<lparr>btnPressHandled := x1\<rparr>) = selectionInRange s"
  "selectionInRange (s\<lparr>lastBtnDebounceTime := x2\<rparr>) = selectionInRange s"
  "selectionInRange (s\<lparr>btnDownStart := x2\<rparr>) = selectionInRange s"
  by (simp_all add: selectionInRange_def)

lemma btnStateChange_selection:
  "selectionInRange s \<Longrightarrow> selectionInRange (btnStateChange i n d t s)"
  by (simp add: btnStateChange_def Let_def cycleColor_selection cycleMode_selection
      incBrightness_selection)

lemma checkButton_selection:
  "selectionInRange s \<Longrightarrow> selectionInRange (checkButton inp i s)"
  by (simp add: checkButton_def Let_def btnStateChange_selection)

lemma checkButtons_selection:
  "selectionInRange s \<Longrightarrow> selectionInRange (checkButtons inp s)"
  by (simp add: checkButtons_def upt_rec checkButton_selection)

lemma updatePhase_selection:
  "selectionInRange (updatePhase t s) = selectionInRange s"
  by (simp add: updatePhase_def Let_def selectionInRange_def)

lemma updateLEDs_selection:
  assumes "selectionInRange s"
  shows "\<exists>s'. updateLEDs t s = Some s' \<and> selectionInRange s'"
proof -
  from assms have "0 \<le> currentColorIndex s" "currentColorIndex s \<le> 7"
    by (simp_all add: selectionInRange_def)
  from updateLEDs_total [OF this, of t] obtain s' where s': "updateLEDs t s = Some s'" by auto
  have "selectionInRange s'"
  proof (cases "exceedsUpdateDelay (t - lastLEDUpdate s)")
    case True
    from updateLEDs_eligible [OF True s'] assms show ?thesis
      by (auto simp: selectionInRange_def)
  next
    case False
    from updateLEDs_not_eligible [OF False] s' assms show ?thesis by simp
  qed
  with s' show ?thesis by blast
qed

lemma loop_selection:
  "selectionInRange s \<Longrightarrow> \<exists>s'. loop inp s = Some s' \<and> selectionInRange s'"
  unfolding loop_def
  by (intro updateLEDs_selection) (simp add: updatePhase_selection checkButtons_selection)

lemma runLoop_selection:
  "selectionInRange s \<Longrightarrow> \<exists>s'. runLoop inps s = Some s' \<and> selectionInRange s'"
proof (induction inps arbitrary: s)
  case Nil
  then show ?case by simp
next
  case (Cons inp inps)
  from loop_selection [OF Cons.prems, of inp] obtain u where "loop inp s = Some u" "selectionInRange u"
    by blast
  with Cons.IH [of u] show ?case by simp
qed

lemma loadState_fields:
  assumes "unat (if eeprom s 1 = 255 then inputBrightnessLevel s else eeprom s 1) < 5"
  shows "\<exists>s'. loadState s = Some s' \<and>
         currentMode s' = (if eeprom s 0 = 255 then currentMode s else eeprom s 0) \<and>
         inputBrightnessLevel s' = (if eeprom s 1 = 255 then inputBrightnessLevel s else eeprom s 1) \<and>
         currentColorIndex s' = (if eeprom s 2 = 255 then currentColorIndex s else uint (eeprom s 2))"
  using assms
  by (cases "eeprom s 1 = 255") (simp_all add: loadState_def Let_def brightnessAt_Some)

lemma setupSketch_selection:
  assumes "storedSelectionOK e"
  shows "\<exists>s0. setupSketch e = Some s0 \<and> selectionInRange s0"
proof -
  let ?s = "initState e"
  from assms have e0: "e 0 = 255 \<or> unat (e 0) \<le> 2" and e1: "e 1 = 255 \<or> unat (e 1) \<le> 4"
    and e2: "e 2 = 255 \<or> unat (e 2) \<le> 7"
    by (simp_all add: storedSelectionOK_def)
  have f: "eeprom ?s = e" "currentMode ?s = 0" "inputBrightnessLevel ?s = 3" "currentColorIndex ?s = 0"
    by (simp_all add: initState_def MODE_UNIFIED_def)
  have l: "unat (if eeprom ?s 1 = 255 then inputBrightnessLevel ?s else eeprom ?s 1) < 5"
    using e1 by (auto simp: f)
  from loadState_fields [OF l] obtain s0 where s0: "loadState ?s = Some s0"
    and m: "currentMode s0 = (if e 0 = 255 then 0 else e 0)"
    and v: "inputBrightnessLevel s0 = (if e 1 = 255 then 3 else e 1)"
    and c: "currentColorIndex s0 = (if e 2 = 255 then 0 else uint (e 2))"
    unfolding f by blast
  have "unat (currentMode s0) \<le> 2" using e0 by (auto simp: m)
  moreover have "unat (inputBrightnessLevel s0) \<le> 4" using e1 by (auto simp: v)
  moreover have "0 \<le> currentColorIndex s0" by (simp add: c)
  moreover have "currentColorIndex s0 \<le> 7"
  proof (cases "e 2 = 255")
    case True
    then show ?thesis by (simp add: c)
  next
    case False
    with e2 have "unat (e 2) \<le> 7" by simp
    then have "uint (e 2) \<le> 7" using uint_nat [of "e 2"] by linarith
    with False show ?thesis by (simp add: c)
  qed
  ultimately have "selectionInRange s0" by (simp add: selectionInRange_def)
  with s0 show ?thesis by (auto simp: setupSketch_def)
qed

text \<open>
  Claim C2, amended. When each of the three stored bytes is the sentinel 255 or in the range
  of its field, the startup returns, every run of the loop from there returns, and in the
  state it reaches the mode is in 0..2, the level in 0..4 and the colour index in 0..7.
  On an in-range selection each of \<^verbatim>\<open>cycleColor\<close>, \<^verbatim>\<open>cycleMode\<close> and \<^verbatim>\<open>incBrightness\<close>
  gives an in-range selection: it adds 1 to its field, and gives 0 exactly at the upper
  boundary (7, 2 and 4).
\<close>

theorem selection_stays_in_range:
  "(storedSelectionOK e \<longrightarrow>
      (\<exists>s0. setupSketch e = Some s0 \<and> (\<exists>s. runLoop inps s0 = Some s \<and> selectionInRange s)))
   \<and> (selectionInRange s \<longrightarrow>
        selectionInRange (cycleColor s) \<and> selectionInRange (cycleMode s) \<and>
        selectionInRange (incBrightness s) \<and>
        currentColorIndex (cycleColor s) =
          (if currentColorIndex s = 7 then 0 else currentColorIndex s + 1) \<and>
        currentMode (cycleMode s) = (if currentMode s = 2 then 0 else currentMode s + 1) \<and>
        inputBrightnessLevel (incBrightness s) =
          (if inputBrightnessLevel s = 4 then 0 else inputBrightnessLevel s + 1))"
proof (intro conjI impI)
  assume "storedSelectionOK e"
  from setupSketch_selection [OF this] obtain s0 where s0: "setupSketch e = Some s0"
    "selectionInRange s0" by blast
  from runLoop_selection [OF s0(2), of inps] s0(1)
  show "\<exists>s0. setupSketch e = Some s0 \<and> (\<exists>s. runLoop inps s0 = Some s \<and> selectionInRange s)"
    by blast
next
  assume h: "selectionInRange s"
  then show "selectionInRange (cycleColor s)" "selectionInRange (cycleMode s)"
    "selectionInRange (incBrightness s)"
    by (rule cycleColor_selection cycleMode_selection incBrightness_selection)+
  from h have c: "0 \<le> currentColorIndex s" "currentColorIndex s \<le> 7"
    and m: "unat (currentMode s) < 3" and l: "unat (inputBrightnessLevel s) < 5"
    by (simp_all add: selectionInRange_def)
  show "currentColorIndex (cycleColor s) =
          (if currentColorIndex s = 7 then 0 else currentColorIndex s + 1)"
    using cycleColor_mod [OF c] c by auto
  show "currentMode (cycleMode s) = (if currentMode s = 2 then 0 else currentMode s + 1)"
    using byte_cases3 [OF m] by (auto simp: cycleMode_mode word_le_nat_alt)
  show "inputBrightnessLevel (incBrightness s) =
          (if inputBrightnessLevel s = 4 then 0 else inputBrightnessLevel s + 1)"
    using byte_cases5 [OF l] by (auto simp: incBrightness_level word_less_nat_alt)
qed

text \<open>A blank EEPROM and one pass of the loop; the three operations on the initial globals.\<close>

theorem selection_stays_in_range_witness:
  "storedSelectionOK blankEeprom \<and>
   (\<exists>s0. setupSketch blankEeprom = Some s0 \<and>
      (\<exists>s. runLoop [earlyTick] s0 = Some s \<and> selectionInRange s)) \<and>
   selectionInRange (initState blankEeprom) \<and>
   currentColorIndex (cycleColor (initState blankEeprom)) = 1 \<and>
   currentMode (cycleMode (initState blankEeprom)) = 1 \<and>
   inputBrightnessLevel (incBrightness (initState blankEeprom)) = 4"
proof -
  have o: "storedSelectionOK blankEeprom"
    by (simp add: storedSelectionOK_def blankEeprom_def)
  have i: "selectionInRange (initState blankEeprom)"
    by (simp add: selectionInRange_def initState_def MODE_UNIFIED_def)
  have f: "currentColorIndex (initState blankEeprom) = 0" "currentMode (initState blankEeprom) = 0"
    "inputBrightnessLevel (initState blankEeprom) = 3"
    by (simp_all add: initState_def MODE_UNIFIED_def)
  from selection_stays_in_range [of blankEeprom "[earlyTick]" "initState blankEeprom"] o i
  show ?thesis by (simp add: f)
qed

text \<open>
  Claim C2 as stated fails: \<^verbatim>\<open>loadState\<close> tests the stored bytes against 255 only, so with
  the mode byte 200 the state after startup has the mode 200, outside 0..2.
\<close>

theorem corrupt_mode_is_loaded:
  "map_option currentMode (setupSketch corruptEeprom) = Some 200 \<and> \<not> unat (200 :: byte) \<le> 2"
  by (simp add: setupSketch_def loadState_def initState_def corruptEeprom_def Let_def
      brightnessAt_def brightnessValues_def)

section \<open>The button decoder\<close>

lemma btnStateChange_frame [simp]:
  "btnState (btnStateChange i n d t s) = (btnState s)[i := n]"
  "lastBtnState (btnStateChange i n d t s) = lastBtnState s"
  "lastBtnDebounceTime (btnStateChange i n d t s) = lastBtnDebounceTime s"
  "length (btnPressHandled (btnStateChange i n d t s)) = length (btnPressHandled s)"
  "length (btnDownStart (btnStateChange i n d t s)) = length (btnDownStart s)"
  by (simp_all add: btnStateChange_def Let_def)

lemma btnStateChange_press:
  "btnPressHandled (btnStateChange i True d t s) = (btnPressHandled s)[i := False]"
  "actionLog (btnStateChange i True d t s) = actionLog s"
  by (simp_all add: btnStateChange_def Let_def)

lemma btnStateChange_release_B_while_A_down:
  assumes "btnState s ! 0 = True" "btnPressHandled s ! 1 = False" "1 < length (btnState s)"
  shows "btnPressHandled (btnStateChange 1 False d t s) = (btnPressHandled s)[0 := True]"
    and "actionLog (btnStateChange 1 False d t s) = actionLog s @ [IncreaseBrightness]"
  using assms by (simp_all add: btnStateChange_def Let_def)

lemma btnStateChange_release_A_handled:
  assumes "btnPressHandled s ! 0 = True"
  shows "btnPressHandled (btnStateChange 0 False d t s) = btnPressHandled s"
    and "actionLog (btnStateChange 0 False d t s) = actionLog s"
  using assms by (simp_all add: btnStateChange_def Let_def)

lemma buttonArraysOK_btnStateChange:
  "buttonArraysOK s \<Longrightarrow> buttonArraysOK (btnStateChange i n d t s)"
  by (simp add: buttonArraysOK_def)

lemma checkButton_quiet:
  "digitalRead inp i = lastBtnState s ! i \<Longrightarrow> btnState s ! i = lastBtnState s ! i \<Longrightarrow>
   checkButton inp i s = s"
  by (simp add: checkButton_def Let_def)

lemma checkButton_first:
  assumes "digitalRead inp i = v" "lastBtnState s ! i = (\<not> v)" "btnState s ! i = (\<not> v)"
    "i < length (lastBtnDebounceTime s)"
  shows "checkButton inp i s =
    s\<lparr>lastBtnDebounceTime := (lastBtnDebounceTime s)[i := millisCheck inp],
      lastBtnState := (lastBtnState s)[i := v]\<rparr>"
  using assms by (simp add: checkButton_def Let_def DEBOUNCE_DELAY_def)

lemma checkButton_wait:
  assumes "digitalRead inp i = lastBtnState s ! i"
    "\<not> DEBOUNCE_DELAY < millisCheck inp - lastBtnDebounceTime s ! i"
  shows "checkButton inp i s = s"
  using assms by (simp add: checkButton_def Let_def)

lemma checkButton_fire:
  assumes "digitalRead inp i = lastBtnState s ! i" "btnState s ! i = (\<not> lastBtnState s ! i)"
    "DEBOUNCE_DELAY < millisCheck inp - lastBtnDebounceTime s ! i"
  shows "checkButton inp i s =
    btnStateChange i (lastBtnState s ! i)
      (if lastBtnState s ! i then 0 else millisCheck inp - btnDownStart s ! i)
      (millisChange inp i) s"
  using assms by (simp add: checkButton_def Let_def)

lemma checkButtons_unfold: "checkButtons inp s = checkButton inp 1 (checkButton inp 0 s)"
  by (simp add: checkButtons_def upt_rec)

lemma less_two: "i < 2 \<Longrightarrow> i = 0 \<or> i = (1::nat)"
  by auto

lemma tick_quiet:
  assumes "digitalRead inp 0 = lastBtnState s ! 0" "btnState s ! 0 = lastBtnState s ! 0"
    "digitalRead inp 1 = lastBtnState s ! 1" "btnState s ! 1 = lastBtnState s ! 1"
  shows "checkButtons inp s = s"
  using assms by (simp add: checkButtons_unfold checkButton_quiet)

lemma run_quiet:
  assumes "\<forall>inp\<in>set ts. digitalRead inp 0 = lastBtnState s ! 0 \<and> digitalRead inp 1 = lastBtnState s ! 1"
    "btnState s ! 0 = lastBtnState s ! 0" "btnState s ! 1 = lastBtnState s ! 1"
  shows "runButtons ts s = s"
  using assms by (induction ts) (simp_all add: tick_quiet)


lemma tick_first:
  assumes ok: "buttonArraysOK s" and i: "i < 2"
    and st: "btnState s ! i = (\<not> v)" "lastBtnState s ! i = (\<not> v)"
      "btnState s ! (1 - i) = lastBtnState s ! (1 - i)"
    and rd: "digitalRead inp i = v" "digitalRead inp (1 - i) = lastBtnState s ! (1 - i)"
  shows "checkButtons inp s =
    s\<lparr>lastBtnDebounceTime := (lastBtnDebounceTime s)[i := millisCheck inp],
      lastBtnState := (lastBtnState s)[i := v]\<rparr>"
proof -
  from ok have len: "i < length (lastBtnDebounceTime s)" using i by (simp add: buttonArraysOK_def)
  from less_two [OF i] show ?thesis
  proof
    assume i0: "i = 0"
    have 1: "checkButton inp 0 s =
      s\<lparr>lastBtnDebounceTime := (lastBtnDebounceTime s)[0 := millisCheck inp],
        lastBtnState := (lastBtnState s)[0 := v]\<rparr>"
      using st rd len unfolding i0 by (intro checkButton_first) simp_all
    show ?thesis unfolding checkButtons_unfold 1 i0
      using st(3) rd(2) unfolding i0 by (intro checkButton_quiet) simp_all
  next
    assume i1: "i = 1"
    have 0: "checkButton inp 0 s = s"
      using st(3) rd(2) unfolding i1 by (intro checkButton_quiet) simp_all
    show ?thesis unfolding checkButtons_unfold 0 i1
      using st rd len unfolding i1 by (intro checkButton_first) simp_all
  qed
qed

lemma pendingChange_after_first:
  assumes ok: "buttonArraysOK s" and i: "i < 2"
    and st: "btnState s ! i = (\<not> v)" "btnState s ! (1 - i) = lastBtnState s ! (1 - i)"
  shows "pendingChange i v t0
    (s\<lparr>lastBtnDebounceTime := (lastBtnDebounceTime s)[i := t0],
       lastBtnState := (lastBtnState s)[i := v]\<rparr>)"
  using less_two [OF i] ok st by (auto simp: pendingChange_def buttonArraysOK_def)

lemma tick_pending:
  assumes p: "pendingChange i v t0 s" and i: "i < 2"
    and rd: "digitalRead inp i = v" "digitalRead inp (1 - i) = lastBtnState s ! (1 - i)"
  shows "checkButtons inp s =
    (if DEBOUNCE_DELAY < millisCheck inp - t0
     then btnStateChange i v (if v then 0 else millisCheck inp - btnDownStart s ! i)
            (millisChange inp i) s
     else s)"
proof -
  from p have ok: "buttonArraysOK s" and st: "btnState s ! i = (\<not> v)" "lastBtnState s ! i = v"
    "lastBtnDebounceTime s ! i = t0" "btnState s ! (1 - i) = lastBtnState s ! (1 - i)"
    by (simp_all add: pendingChange_def)
  have own: "checkButton inp i s =
    (if DEBOUNCE_DELAY < millisCheck inp - t0
     then btnStateChange i v (if v then 0 else millisCheck inp - btnDownStart s ! i)
            (millisChange inp i) s
     else s)"
  proof (cases "DEBOUNCE_DELAY < millisCheck inp - t0")
    case True
    with checkButton_fire [of inp i s] st rd(1) show ?thesis by simp
  next
    case False
    with checkButton_wait [of inp i s] st rd(1) show ?thesis by simp
  qed
  from less_two [OF i] show ?thesis
  proof
    assume i0: "i = 0"
    have "checkButton inp 1 (checkButton inp 0 s) = checkButton inp 0 s"
      using st(4) rd(2) unfolding own [unfolded i0] i0
      by (intro checkButton_quiet) (simp_all split: if_splits)
    then show ?thesis using own unfolding checkButtons_unfold i0 by simp
  next
    assume i1: "i = 1"
    have 0: "checkButton inp 0 s = s"
      using st(4) rd(2) unfolding i1 by (intro checkButton_quiet) simp_all
    show ?thesis unfolding checkButtons_unfold 0 using own unfolding i1 by simp
  qed
qed

lemma run_pending:
  assumes "pendingChange i v t0 s" and "i < 2"
    and "\<forall>inp\<in>set ts. digitalRead inp i = v \<and> digitalRead inp (1 - i) = lastBtnState s ! (1 - i)"
    and "\<exists>inp\<in>set ts. DEBOUNCE_DELAY < millisCheck inp - t0"
  shows "\<exists>d t. runButtons ts s = btnStateChange i v d t s"
  using assms
proof (induction ts)
  case Nil
  then show ?case by simp
next
  case (Cons inp ts)
  from Cons.prems(3) have rd: "digitalRead inp i = v"
    "digitalRead inp (1 - i) = lastBtnState s ! (1 - i)"
    and rest: "\<forall>inp\<in>set ts. digitalRead inp i = v \<and>
        digitalRead inp (1 - i) = lastBtnState s ! (1 - i)"
    by simp_all
  note step = tick_pending [OF Cons.prems(1,2) rd]
  from Cons.prems(1) have ok: "buttonArraysOK s" and st: "lastBtnState s ! i = v"
    "btnState s ! (1 - i) = lastBtnState s ! (1 - i)"
    by (simp_all add: pendingChange_def)
  show ?case
  proof (cases "DEBOUNCE_DELAY < millisCheck inp - t0")
    case True
    let ?X = "btnStateChange i v (if v then 0 else millisCheck inp - btnDownStart s ! i)
            (millisChange inp i) s"
    from True step have c: "checkButtons inp s = ?X" by simp
    have "runButtons ts ?X = ?X"
      using less_two [OF Cons.prems(2)] rest st ok
      by (intro run_quiet) (auto simp: buttonArraysOK_def)
    with c show ?thesis by auto
  next
    case False
    with step have c: "checkButtons inp s = s" by simp
    from False Cons.prems(4) have "\<exists>inp\<in>set ts. DEBOUNCE_DELAY < millisCheck inp - t0" by simp
    from Cons.IH [OF Cons.prems(1,2) rest this] c show ?thesis by simp
  qed
qed

lemma run_phase:
  assumes ok: "buttonArraysOK s" and i: "i < 2"
    and st: "btnState s ! i = (\<not> v)" "lastBtnState s ! i = (\<not> v)"
      "btnState s ! (1 - i) = lastBtnState s ! (1 - i)"
    and rd: "\<forall>inp\<in>set (f # rest). digitalRead inp i = v \<and>
        digitalRead inp (1 - i) = lastBtnState s ! (1 - i)"
    and fire: "\<exists>inp\<in>set rest. DEBOUNCE_DELAY < millisCheck inp - millisCheck f"
  shows "\<exists>d t. runButtons (f # rest) s =
    btnStateChange i v d t
      (s\<lparr>lastBtnDebounceTime := (lastBtnDebounceTime s)[i := millisCheck f],
         lastBtnState := (lastBtnState s)[i := v]\<rparr>)"
proof -
  let ?s1 = "s\<lparr>lastBtnDebounceTime := (lastBtnDebounceTime s)[i := millisCheck f],
         lastBtnState := (lastBtnState s)[i := v]\<rparr>"
  from rd have rdf: "digitalRead f i = v" "digitalRead f (1 - i) = lastBtnState s ! (1 - i)"
    by simp_all
  have 1: "checkButtons f s = ?s1" by (rule tick_first [OF ok i st rdf])
  have p: "pendingChange i v (millisCheck f) ?s1"
    by (rule pendingChange_after_first [OF ok i st(1,3)])
  have other: "lastBtnState ?s1 ! (1 - i) = lastBtnState s ! (1 - i)"
    using less_two [OF i] by auto
  have "\<exists>d t. runButtons rest ?s1 = btnStateChange i v d t ?s1"
    using rd fire by (intro run_pending [OF p i]) (simp_all only: other, simp_all)
  then show ?thesis by (simp add: 1)
qed


lemma phase_step:
  assumes ok: "buttonArraysOK s" and i: "i < 2"
    and settled: "btnState s = lastBtnState s" and st: "btnState s ! i = (\<not> v)"
    and ph: "stablePhase p1 p2 ts"
    and pins: "(if i = 0 then p1 else p2) = v" "(if i = 0 then p2 else p1) = btnState s ! (1 - i)"
  shows "\<exists>d t u. runButtons ts s = btnStateChange i v d t u \<and> buttonArraysOK u \<and>
           btnState u = btnState s \<and> lastBtnState u = (lastBtnState s)[i := v] \<and>
           btnPressHandled u = btnPressHandled s \<and> actionLog u = actionLog s"
proof -
  from ph obtain f rest where ts: "ts = f # rest"
    and all: "\<forall>inp\<in>set (f # rest). pinButton1 inp = p1 \<and> pinButton2 inp = p2"
    and fire: "\<exists>inp\<in>set rest. DEBOUNCE_DELAY < millisCheck inp - millisCheck f"
    by (cases ts) (auto simp: stablePhase_def)
  have rd: "\<forall>inp\<in>set (f # rest). digitalRead inp i = v \<and>
        digitalRead inp (1 - i) = lastBtnState s ! (1 - i)"
    using all pins settled less_two [OF i] by (auto simp: digitalRead_def)
  have st': "lastBtnState s ! i = (\<not> v)" "btnState s ! (1 - i) = lastBtnState s ! (1 - i)"
    using st settled by simp_all
  let ?u = "s\<lparr>lastBtnDebounceTime := (lastBtnDebounceTime s)[i := millisCheck f],
         lastBtnState := (lastBtnState s)[i := v]\<rparr>"
  from run_phase [OF ok i st st' rd fire] obtain d t where
    "runButtons ts s = btnStateChange i v d t ?u" unfolding ts by blast
  moreover have "buttonArraysOK ?u" using ok by (simp add: buttonArraysOK_def)
  ultimately show ?thesis by (intro exI [of _ d] exI [of _ t] exI [of _ ?u]) simp
qed

lemma pair_list: "length xs = 2 \<Longrightarrow> xs = [xs ! 0, xs ! 1]"
  by (cases xs; cases "tl xs") auto

text \<open>
  Claim C1. Start with both buttons up and at rest. Over any ticks in which button A (pin 1)
  goes down and stays down, then button B (pin 2) goes down and comes up again while A is
  down, then A comes up, each reading lasting beyond the debounce delay, \<^verbatim>\<open>checkButtons\<close>
  performs exactly one action, \<^verbatim>\<open>incBrightness\<close>, and never \<^verbatim>\<open>cycleColor\<close>: the action is
  performed when B comes up, which also sets \<^verbatim>\<open>btnPressHandled[0]\<close>, so that the release
  of A performs nothing.
\<close>

theorem hold_A_tap_B:
  assumes ok: "buttonArraysOK s"
    and up: "btnState s = [False, False]" "lastBtnState s = [False, False]"
    and pressA: "stablePhase True False pressA"
    and pressB: "stablePhase True True pressB"
    and releaseB: "stablePhase True False releaseB"
    and releaseA: "stablePhase False False releaseA"
  shows "actionLog (runButtons (pressA @ pressB @ releaseB @ releaseA) s) =
           actionLog s @ [IncreaseBrightness]
    \<and> actionLog (runButtons (pressA @ pressB @ releaseB) s) = actionLog s @ [IncreaseBrightness]
    \<and> btnPressHandled (runButtons (pressA @ pressB @ releaseB) s) ! 0 = True
    \<and> actionLog (runButtons (pressA @ pressB) s) = actionLog s"
proof -
  have app: "runButtons (xs @ ys) u = runButtons ys (runButtons xs u)" for xs ys u
    by (induction xs arbitrary: u) simp_all
  define s1 where "s1 = runButtons pressA s"
  define s2 where "s2 = runButtons pressB s1"
  define s3 where "s3 = runButtons releaseB s2"
  define s4 where "s4 = runButtons releaseA s3"
  from phase_step [OF ok _ _ _ pressA, of 0 True] up
  obtain d1 t1 u1 where 1: "s1 = btnStateChange 0 True d1 t1 u1" "buttonArraysOK u1"
    "btnState u1 = [False, False]" "lastBtnState u1 = [True, False]"
    "btnPressHandled u1 = btnPressHandled s" "actionLog u1 = actionLog s"
    unfolding s1_def by auto
  have ok1: "buttonArraysOK s1" unfolding 1(1) by (rule buttonArraysOK_btnStateChange [OF 1(2)])
  have b1: "btnState s1 = [True, False]" "lastBtnState s1 = [True, False]"
    by (simp_all add: 1)
  have h1: "btnPressHandled s1 = (btnPressHandled s)[0 := False]" "actionLog s1 = actionLog s"
    by (simp_all add: 1 btnStateChange_press)
  from phase_step [OF ok1 _ _ _ pressB, of 1 True] b1
  obtain d2 t2 u2 where 2: "s2 = btnStateChange 1 True d2 t2 u2" "buttonArraysOK u2"
    "btnState u2 = [True, False]" "lastBtnState u2 = [True, True]"
    "btnPressHandled u2 = btnPressHandled s1" "actionLog u2 = actionLog s1"
    unfolding s2_def by auto
  have ok2: "buttonArraysOK s2" unfolding 2(1) by (rule buttonArraysOK_btnStateChange [OF 2(2)])
  have b2: "btnState s2 = [True, True]" "lastBtnState s2 = [True, True]"
    by (simp_all add: 2)
  have h2: "btnPressHandled s2 = (btnPressHandled s)[0 := False, 1 := False]"
    "actionLog s2 = actionLog s"
    by (simp_all add: 2 h1 btnStateChange_press)
  from phase_step [OF ok2 _ _ _ releaseB, of 1 False] b2
  obtain d3 t3 u3 where 3: "s3 = btnStateChange 1 False d3 t3 u3" "buttonArraysOK u3"
    "btnState u3 = [True, True]" "lastBtnState u3 = [True, False]"
    "btnPressHandled u3 = btnPressHandled s2" "actionLog u3 = actionLog s2"
    unfolding s3_def by auto
  have ok3: "buttonArraysOK s3" unfolding 3(1) by (rule buttonArraysOK_btnStateChange [OF 3(2)])
  have b3: "btnState s3 = [True, False]" "lastBtnState s3 = [True, False]"
    by (simp_all add: 3)
  have len: "length (btnPressHandled s) = 2" using ok by (simp add: buttonArraysOK_def)
  have pre3: "btnState u3 ! 0 = True" "btnPressHandled u3 ! 1 = False" "1 < length (btnState u3)"
    using len by (simp_all add: 3 h2)
  have h3: "btnPressHandled s3 = (btnPressHandled s)[0 := False, 1 := False, 0 := True]"
    "actionLog s3 = actionLog s @ [IncreaseBrightness]"
    unfolding 3(1) btnStateChange_release_B_while_A_down [OF pre3] by (simp_all add: 3 h2)
  have c3: "btnPressHandled s3 ! 0 = True"
    using len by (simp add: h3)
  from phase_step [OF ok3 _ _ _ releaseA, of 0 False] b3
  obtain d4 t4 u4 where 4: "s4 = btnStateChange 0 False d4 t4 u4" "buttonArraysOK u4"
    "btnState u4 = [True, False]" "lastBtnState u4 = [False, False]"
    "btnPressHandled u4 = btnPressHandled s3" "actionLog u4 = actionLog s3"
    unfolding s4_def by auto
  have pre4: "btnPressHandled u4 ! 0 = True" using c3 by (simp add: 4)
  have h4: "actionLog s4 = actionLog s @ [IncreaseBrightness]"
    unfolding 4(1) btnStateChange_release_A_handled [OF pre4] by (simp add: 4 h3)
  show ?thesis
    using h4 h3(2) c3 h2(2) by (simp add: app s1_def s2_def s3_def s4_def)
qed

text \<open>Four phases of two ticks, 60 ms apart, from the initial globals.\<close>

theorem hold_A_tap_B_witness:
  "stablePhase True False examplePressA \<and> stablePhase True True examplePressB \<and>
   stablePhase True False exampleReleaseB \<and> stablePhase False False exampleReleaseA \<and>
   actionLog (runButtons (examplePressA @ examplePressB @ exampleReleaseB @ exampleReleaseA)
     (initState blankEeprom)) = [IncreaseBrightness]"
proof -
  have ok: "buttonArraysOK (initState blankEeprom)"
    and up: "btnState (initState blankEeprom) = [False, False]"
      "lastBtnState (initState blankEeprom) = [False, False]"
    and lg: "actionLog (initState blankEeprom) = []"
    by (simp_all add: buttonArraysOK_def initState_def)
  have p: "stablePhase True False examplePressA" "stablePhase True True examplePressB"
    "stablePhase True False exampleReleaseB" "stablePhase False False exampleReleaseA"
    by (simp_all add: stablePhase_def examplePressA_def examplePressB_def exampleReleaseB_def
        exampleReleaseA_def tickAt_def DEBOUNCE_DELAY_def)
  from hold_A_tap_B [OF ok up p] lg p show ?thesis by simp
qed

end
